theory Spec2Isabelle
  imports Main
begin

section \<open>Data model (app/models/user.py, app/models/posts.py)\<close>

text \<open>
  Tables are lists of rows, in the order the store returns them; a query ending in
  \<open>.first()\<close> is \<^const>\<open>find\<close> on that list. Columns are Python/SQL integers, modelled
  as \<^typ>\<open>int\<close>. Columns that none of the modelled handlers reads or writes (titles,
  slugs, view counts, image and social links, privacy flags, timestamps) are left out of
  the rows, and so are the tables of tags, bookmarks and tokens.
\<close>

datatype VoteType = UPVOTE | DOWNVOTE

datatype PostType = QUESTION | DISCUSSION | ANNOUNCEMENT

record User =
  u_id :: int
  u_email :: string
  u_username :: string
  u_display_name :: string
  u_full_name :: "string option"
  u_bio :: "string option"
  u_name :: "string option"
  u_password_hash :: "string option"
  u_is_active :: bool
  u_is_verified :: bool
  u_post_count :: int
  u_comment_count :: int
  u_karma_score :: int

record Post =
  p_id :: int
  p_post_type :: PostType
  p_author_id :: int
  p_upvote_count :: int
  p_downvote_count :: int
  p_comment_count :: int
  p_answer_count :: int
  p_is_answered :: bool
  p_accepted_answer_id :: "int option"
  p_is_locked :: bool
  p_is_deleted :: bool

record Comment =
  c_id :: int
  c_content :: string
  c_content_plain :: string
  c_post_id :: int
  c_author_id :: int
  c_parent_id :: "int option"
  c_upvote_count :: int
  c_downvote_count :: int
  c_reply_count :: int
  c_is_answer :: bool
  c_is_accepted :: bool
  c_has_code :: bool
  c_has_images :: bool
  c_is_deleted :: bool

record PostVote =
  pv_id :: int
  pv_post_id :: int
  pv_user_id :: int
  pv_vote_type :: VoteType

record CommentVote =
  cv_id :: int
  cv_comment_id :: int
  cv_user_id :: int
  cv_vote_type :: VoteType

text \<open>
  The persistent store: the five tables, and for each table that the modelled handlers
  insert into, the next value of its auto-increment primary key.
\<close>

record db =
  users :: "User list"
  posts :: "Post list"
  comments :: "Comment list"
  post_votes :: "PostVote list"
  comment_votes :: "CommentVote list"
  next_user_id :: int
  next_comment_id :: int
  next_post_vote_id :: int
  next_comment_vote_id :: int

datatype HTTPException = HTTPException (status_code: nat) (detail: string)

subsection \<open>Row updates through the session\<close>

text \<open>
  Assigning to an attribute of a loaded row and committing updates the row with that
  primary key.
\<close>

definition upd_user :: "int \<Rightarrow> (User \<Rightarrow> User) \<Rightarrow> db \<Rightarrow> db" where
  "upd_user i f d = d\<lparr>users := map (\<lambda>u. if u_id u = i then f u else u) (users d)\<rparr>"

definition upd_post :: "int \<Rightarrow> (Post \<Rightarrow> Post) \<Rightarrow> db \<Rightarrow> db" where
  "upd_post i f d = d\<lparr>posts := map (\<lambda>p. if p_id p = i then f p else p) (posts d)\<rparr>"

definition upd_comment :: "int \<Rightarrow> (Comment \<Rightarrow> Comment) \<Rightarrow> db \<Rightarrow> db" where
  "upd_comment i f d =
     d\<lparr>comments := map (\<lambda>c. if c_id c = i then f c else c) (comments d)\<rparr>"

text \<open>\<^verbatim>\<open>if author: author.karma_score += n\<close>, for an author row that may be missing.\<close>

definition karma_add :: "User option \<Rightarrow> int \<Rightarrow> db \<Rightarrow> db" where
  "karma_add author n d =
     (case author of
        None \<Rightarrow> d
      | Some a \<Rightarrow> upd_user (u_id a) (\<lambda>u. u\<lparr>u_karma_score := u_karma_score u + n\<rparr>) d)"

section \<open>The expiring cache (app/database.py: get_redis, MockRedisClient)\<close>

text \<open>
  \<open>get_redis\<close> hands a handler either the Redis client or, when Redis could not be
  reached, a \<open>MockRedisClient\<close>, which has \<open>get\<close>, \<open>setex\<close> and \<open>ping\<close> only: its
  \<open>delete\<close> and \<open>scan_iter\<close> raise AttributeError. A Redis client holds the cached
  entries and a schedule of faults: each call consumes the head of the schedule and raises
  when it is \<open>True\<close>; an empty schedule is a healthy server. Expiry by TTL is not
  modelled.
\<close>

datatype redis_client = Redis "(string \<times> string) list" "bool list" | MockRedisClient

text \<open>The result of a cache call: \<open>None\<close> when the call raised.\<close>

fun redis_delete :: "string \<Rightarrow> redis_client \<Rightarrow> unit option \<times> redis_client" where
  "redis_delete k MockRedisClient = (None, MockRedisClient)"
| "redis_delete k (Redis es (True # fs)) = (None, Redis es fs)"
| "redis_delete k (Redis es (False # fs)) = (Some (), Redis (filter (\<lambda>e. fst e \<noteq> k) es) fs)"
| "redis_delete k (Redis es []) = (Some (), Redis (filter (\<lambda>e. fst e \<noteq> k) es) [])"

text \<open>
  \<open>scan_iter(match=pre + "*")\<close>: every pattern of the handlers is a literal prefix
  followed by \<open>*\<close>, so the argument here is the prefix.
\<close>

definition key_matches :: "string \<Rightarrow> string \<Rightarrow> bool" where
  "key_matches pre k = (take (length pre) k = pre)"

fun redis_scan_iter :: "string \<Rightarrow> redis_client \<Rightarrow> string list option \<times> redis_client" where
  "redis_scan_iter pre MockRedisClient = (None, MockRedisClient)"
| "redis_scan_iter pre (Redis es (True # fs)) = (None, Redis es fs)"
| "redis_scan_iter pre (Redis es (False # fs)) =
     (Some (filter (key_matches pre) (map fst es)), Redis es fs)"
| "redis_scan_iter pre (Redis es []) =
     (Some (filter (key_matches pre) (map fst es)), Redis es [])"

fun redis_get :: "string \<Rightarrow> redis_client \<Rightarrow> string option option \<times> redis_client" where
  "redis_get k MockRedisClient = (Some None, MockRedisClient)"
| "redis_get k (Redis es (True # fs)) = (None, Redis es fs)"
| "redis_get k (Redis es (False # fs)) = (Some (map_of es k), Redis es fs)"
| "redis_get k (Redis es []) = (Some (map_of es k), Redis es [])"

text \<open>\<^verbatim>\<open>for key in keys: redis_client.delete(key)\<close>; the first call that raises ends the loop.\<close>

fun delete_keys :: "string list \<Rightarrow> redis_client \<Rightarrow> unit option \<times> redis_client" where
  "delete_keys [] rc = (Some (), rc)"
| "delete_keys (k # ks) rc =
     (case redis_delete k rc of
        (None, rc') \<Rightarrow> (None, rc')
      | (Some _, rc') \<Rightarrow> delete_keys ks rc')"

text \<open>The statements the invalidation sweeps are made of.\<close>

datatype cache_stmt = Delete string | ScanDelete string | NextGetRedis

text \<open>
  \<open>NextGetRedis\<close> is \<^verbatim>\<open>redis_client = next(get_redis())\<close> of \<open>register_user\<close>:
  \<open>get_redis\<close> returns a client, which is not an iterator, so \<open>next\<close> raises TypeError
  whatever the state of the cache.
\<close>

fun exec_stmt :: "cache_stmt \<Rightarrow> redis_client \<Rightarrow> unit option \<times> redis_client" where
  "exec_stmt (Delete k) rc = redis_delete k rc"
| "exec_stmt NextGetRedis rc = (None, rc)"
| "exec_stmt (ScanDelete pre) rc =
     (case redis_scan_iter pre rc of
        (None, rc') \<Rightarrow> (None, rc')
      | (Some ks, rc') \<Rightarrow> delete_keys ks rc')"

fun exec_stmts :: "cache_stmt list \<Rightarrow> redis_client \<Rightarrow> unit option \<times> redis_client" where
  "exec_stmts [] rc = (Some (), rc)"
| "exec_stmts (s # ss) rc =
     (case exec_stmt s rc of
        (None, rc') \<Rightarrow> (None, rc')
      | (Some _, rc') \<Rightarrow> exec_stmts ss rc')"

text \<open>
  \<^verbatim>\<open>try: <stmts> except Exception as e: logger.warning(...)\<close>: the exception is logged and
  swallowed, the statements after the one that raised are skipped.
\<close>

definition try_sweep :: "cache_stmt list \<Rightarrow> redis_client \<Rightarrow> redis_client" where
  "try_sweep ss rc = snd (exec_stmts ss rc)"

subsection \<open>Cache keys\<close>

text \<open>Python's \<open>str\<close> of an integer, as an f-string formats it.\<close>

definition digit_char :: "nat \<Rightarrow> char" where
  "digit_char n = char_of (48 + n)"

fun str_nat :: "nat \<Rightarrow> string" where
  "str_nat n = (if n < 10 then [digit_char n] else str_nat (n div 10) @ [digit_char (n mod 10)])"

declare str_nat.simps [simp del]

definition str_int :: "int \<Rightarrow> string" where
  "str_int i = (if i < 0 then CHR ''-'' # str_nat (nat (- i)) else str_nat (nat i))"

section \<open>Voting (app/routers/posts.py: vote_on_post, vote_on_comment)\<close>

record VoteResponse =
  vr_id :: int
  vr_vote_type :: VoteType

text \<open>
  What a vote handler returns: the removed-vote dict, or \<open>VoteResponse.model_validate\<close>
  of the vote row.
\<close>

datatype vote_return = ReturnDict "(string \<times> string) list" | ReturnVote VoteResponse

definition post_vote_sweep :: "int \<Rightarrow> User option \<Rightarrow> cache_stmt list" where
  "post_vote_sweep post_id post_author =
     [Delete (''post:'' @ str_int post_id), ScanDelete ''posts:list:''] @
     (case post_author of
        None \<Rightarrow> []
      | Some a \<Rightarrow> [Delete (''user:profile:'' @ u_display_name a), ScanDelete ''users:top:''])"

definition vote_on_post ::
  "int \<Rightarrow> VoteType \<Rightarrow> User \<Rightarrow> db \<Rightarrow> redis_client
    \<Rightarrow> db \<times> redis_client \<times> (HTTPException + vote_return)" where
  "vote_on_post post_id vote_type current_user d rc =
     (case find (\<lambda>p. p_id p = post_id \<and> \<not> p_is_deleted p) (posts d) of
        None \<Rightarrow> (d, rc, Inl (HTTPException 404 ''Post not found''))
      | Some post \<Rightarrow>
          (let post_author = find (\<lambda>u. u_id u = p_author_id post) (users d);
               existing_vote =
                 find (\<lambda>v. pv_post_id v = post_id \<and> pv_user_id v = u_id current_user)
                   (post_votes d);
               rc' = try_sweep (post_vote_sweep post_id post_author) rc
           in case existing_vote of
                Some ev \<Rightarrow>
                  if pv_vote_type ev = vote_type then
                    (let d1 =
                       (if pv_vote_type ev = UPVOTE
                        then karma_add post_author (- 10)
                               (upd_post (p_id post)
                                  (\<lambda>p. p\<lparr>p_upvote_count := p_upvote_count p - 1\<rparr>) d)
                        else karma_add post_author 2
                               (upd_post (p_id post)
                                  (\<lambda>p. p\<lparr>p_downvote_count := p_downvote_count p - 1\<rparr>) d));
                         d2 = d1\<lparr>post_votes :=
                                 filter (\<lambda>v. pv_id v \<noteq> pv_id ev) (post_votes d1)\<rparr>
                     in (d2, rc',
                         Inr (ReturnDict [(''message'', ''Vote removed''),
                                          (''action'', ''removed'')])))
                  else
                    (let old_vote = pv_vote_type ev;
                         d1 = d\<lparr>post_votes :=
                                 map (\<lambda>v. if pv_id v = pv_id ev
                                          then v\<lparr>pv_vote_type := vote_type\<rparr> else v)
                                   (post_votes d)\<rparr>;
                         d2 =
                       (if old_vote = UPVOTE
                        then karma_add post_author (- 2) (karma_add post_author (- 10)
                               (upd_post (p_id post)
                                  (\<lambda>p. p\<lparr>p_upvote_count := p_upvote_count p - 1,
                                          p_downvote_count := p_downvote_count p + 1\<rparr>) d1))
                        else karma_add post_author 10 (karma_add post_author 2
                               (upd_post (p_id post)
                                  (\<lambda>p. p\<lparr>p_downvote_count := p_downvote_count p - 1,
                                          p_upvote_count := p_upvote_count p + 1\<rparr>) d1)))
                     in (d2, rc',
                         Inr (ReturnVote \<lparr>vr_id = pv_id ev, vr_vote_type = vote_type\<rparr>)))
              | None \<Rightarrow>
                  (let new_vote = \<lparr>pv_id = next_post_vote_id d, pv_post_id = post_id,
                                    pv_user_id = u_id current_user,
                                    pv_vote_type = vote_type\<rparr>;
                       d1 = d\<lparr>post_votes := post_votes d @ [new_vote],
                              next_post_vote_id := next_post_vote_id d + 1\<rparr>;
                       d2 =
                     (if vote_type = UPVOTE
                      then karma_add post_author 10
                             (upd_post (p_id post)
                                (\<lambda>p. p\<lparr>p_upvote_count := p_upvote_count p + 1\<rparr>) d1)
                      else karma_add post_author (- 2)
                             (upd_post (p_id post)
                                (\<lambda>p. p\<lparr>p_downvote_count := p_downvote_count p + 1\<rparr>) d1))
                   in (d2, rc',
                       Inr (ReturnVote \<lparr>vr_id = pv_id new_vote,
                                         vr_vote_type = vote_type\<rparr>)))))"

definition comment_vote_sweep :: "int \<Rightarrow> User option \<Rightarrow> cache_stmt list" where
  "comment_vote_sweep comment_post_id comment_author =
     [ScanDelete (''post:'' @ str_int comment_post_id @ '':comments:'')] @
     (case comment_author of
        None \<Rightarrow> []
      | Some a \<Rightarrow> [Delete (''user:profile:'' @ u_display_name a), ScanDelete ''users:top:''])"

definition vote_on_comment ::
  "int \<Rightarrow> VoteType \<Rightarrow> User \<Rightarrow> db \<Rightarrow> redis_client
    \<Rightarrow> db \<times> redis_client \<times> (HTTPException + vote_return)" where
  "vote_on_comment comment_id vote_type current_user d rc =
     (case find (\<lambda>c. c_id c = comment_id \<and> \<not> c_is_deleted c) (comments d) of
        None \<Rightarrow> (d, rc, Inl (HTTPException 404 ''Comment not found''))
      | Some comment \<Rightarrow>
          (let comment_author = find (\<lambda>u. u_id u = c_author_id comment) (users d);
               existing_vote =
                 find (\<lambda>v. cv_comment_id v = comment_id \<and> cv_user_id v = u_id current_user)
                   (comment_votes d);
               rc' = try_sweep (comment_vote_sweep (c_post_id comment) comment_author) rc
           in case existing_vote of
                Some ev \<Rightarrow>
                  if cv_vote_type ev = vote_type then
                    (let d1 =
                       (if cv_vote_type ev = UPVOTE
                        then karma_add comment_author (- 5)
                               (upd_comment (c_id comment)
                                  (\<lambda>c. c\<lparr>c_upvote_count := c_upvote_count c - 1\<rparr>) d)
                        else karma_add comment_author 1
                               (upd_comment (c_id comment)
                                  (\<lambda>c. c\<lparr>c_downvote_count := c_downvote_count c - 1\<rparr>) d));
                         d2 = d1\<lparr>comment_votes :=
                                 filter (\<lambda>v. cv_id v \<noteq> cv_id ev) (comment_votes d1)\<rparr>
                     in (d2, rc',
                         Inr (ReturnDict [(''message'', ''Vote removed''),
                                          (''action'', ''removed'')])))
                  else
                    (let old_vote = cv_vote_type ev;
                         d1 = d\<lparr>comment_votes :=
                                 map (\<lambda>v. if cv_id v = cv_id ev
                                          then v\<lparr>cv_vote_type := vote_type\<rparr> else v)
                                   (comment_votes d)\<rparr>;
                         d2 =
                       (if old_vote = UPVOTE
                        then karma_add comment_author (- 1) (karma_add comment_author (- 5)
                               (upd_comment (c_id comment)
                                  (\<lambda>c. c\<lparr>c_upvote_count := c_upvote_count c - 1,
                                          c_downvote_count := c_downvote_count c + 1\<rparr>) d1))
                        else karma_add comment_author 5 (karma_add comment_author 1
                               (upd_comment (c_id comment)
                                  (\<lambda>c. c\<lparr>c_downvote_count := c_downvote_count c - 1,
                                          c_upvote_count := c_upvote_count c + 1\<rparr>) d1)))
                     in (d2, rc',
                         Inr (ReturnVote \<lparr>vr_id = cv_id ev, vr_vote_type = vote_type\<rparr>)))
              | None \<Rightarrow>
                  (let new_vote = \<lparr>cv_id = next_comment_vote_id d, cv_comment_id = comment_id,
                                    cv_user_id = u_id current_user,
                                    cv_vote_type = vote_type\<rparr>;
                       d1 = d\<lparr>comment_votes := comment_votes d @ [new_vote],
                              next_comment_vote_id := next_comment_vote_id d + 1\<rparr>;
                       d2 =
                     (if vote_type = UPVOTE
                      then karma_add comment_author 5
                             (upd_comment (c_id comment)
                                (\<lambda>c. c\<lparr>c_upvote_count := c_upvote_count c + 1\<rparr>) d1)
                      else karma_add comment_author (- 1)
                             (upd_comment (c_id comment)
                                (\<lambda>c. c\<lparr>c_downvote_count := c_downvote_count c + 1\<rparr>) d1))
                   in (d2, rc',
                       Inr (ReturnVote \<lparr>vr_id = cv_id new_vote,
                                         vr_vote_type = vote_type\<rparr>)))))"

text \<open>
  The routes are declared with \<open>response_model=VoteResponse\<close>: the framework validates
  what the handler returned against the schema after the handler has returned (and
  committed), outside the handler's own \<open>try\<close>. \<open>VoteResponse\<close> requires the fields
  \<open>id\<close>, \<open>vote_type\<close> and \<open>created_at\<close>; a returned dict that lacks one of them
  fails the validation and the client receives status 500. Only the presence of the
  required fields is modelled (of the two timestamp-free ones for a \<open>VoteResponse\<close>
  object, which always has them).
\<close>

definition VoteResponse_required :: "string list" where
  "VoteResponse_required = [''id'', ''vote_type'', ''created_at'']"

fun serialize_response :: "vote_return \<Rightarrow> HTTPException + vote_return" where
  "serialize_response (ReturnVote v) = Inr (ReturnVote v)"
| "serialize_response (ReturnDict kv) =
     (if list_all (\<lambda>f. f \<in> set (map fst kv)) VoteResponse_required
      then Inr (ReturnDict kv)
      else Inl (HTTPException 500 ''Internal Server Error''))"

definition route :: "db \<times> redis_client \<times> (HTTPException + vote_return)
    \<Rightarrow> db \<times> redis_client \<times> (HTTPException + vote_return)" where
  "route out =
     (case out of
        (d, rc, Inl e) \<Rightarrow> (d, rc, Inl e)
      | (d, rc, Inr r) \<Rightarrow> (d, rc, serialize_response r))"

definition post_vote_endpoint ::
  "int \<Rightarrow> VoteType \<Rightarrow> User \<Rightarrow> db \<Rightarrow> redis_client
    \<Rightarrow> db \<times> redis_client \<times> (HTTPException + vote_return)" where
  "post_vote_endpoint post_id vote_type current_user d rc =
     route (vote_on_post post_id vote_type current_user d rc)"

definition comment_vote_endpoint ::
  "int \<Rightarrow> VoteType \<Rightarrow> User \<Rightarrow> db \<Rightarrow> redis_client
    \<Rightarrow> db \<times> redis_client \<times> (HTTPException + vote_return)" where
  "comment_vote_endpoint comment_id vote_type current_user d rc =
     route (vote_on_comment comment_id vote_type current_user d rc)"

section \<open>Accepting an answer (app/routers/posts.py: accept_answer)\<close>

text \<open>The returned dict \<^verbatim>\<open>{"message": m, "is_accepted": b}\<close>.\<close>

datatype accept_return = AcceptDict string bool

definition accept_sweep :: "int \<Rightarrow> User option \<Rightarrow> cache_stmt list" where
  "accept_sweep post_id comment_author =
     [Delete (''post:'' @ str_int post_id),
      ScanDelete (''post:'' @ str_int post_id @ '':comments:'')] @
     (case comment_author of
        None \<Rightarrow> []
      | Some a \<Rightarrow> [Delete (''user:profile:'' @ u_display_name a), ScanDelete ''users:top:''])"

text \<open>
  \<^verbatim>\<open>if post.accepted_answer_id:\<close> is Python truthiness: \<open>None\<close> and \<open>0\<close> are both false.
\<close>

definition unaccept_previous :: "Post \<Rightarrow> db \<Rightarrow> db" where
  "unaccept_previous post d =
     (case p_accepted_answer_id post of
        None \<Rightarrow> d
      | Some old_id \<Rightarrow>
          if old_id = 0 then d
          else
            (case find (\<lambda>c. c_id c = old_id) (comments d) of
               None \<Rightarrow> d
             | Some old_accepted \<Rightarrow>
                 (let d1 = upd_comment (c_id old_accepted)
                             (\<lambda>c. c\<lparr>c_is_accepted := False\<rparr>) d;
                      old_author = find (\<lambda>u. u_id u = c_author_id old_accepted) (users d1)
                  in karma_add old_author (- 15) d1)))"

definition accept_answer ::
  "int \<Rightarrow> int \<Rightarrow> User \<Rightarrow> db \<Rightarrow> redis_client
    \<Rightarrow> db \<times> redis_client \<times> (HTTPException + accept_return)" where
  "accept_answer post_id comment_id current_user d rc =
     (case find (\<lambda>p. p_id p = post_id \<and> \<not> p_is_deleted p) (posts d) of
        None \<Rightarrow> (d, rc, Inl (HTTPException 404 ''Post not found''))
      | Some post \<Rightarrow>
          if p_author_id post \<noteq> u_id current_user
          then (d, rc, Inl (HTTPException 403 ''Only the post author can accept answers''))
          else if p_post_type post \<noteq> QUESTION
          then (d, rc, Inl (HTTPException 400 ''Only questions can have accepted answers''))
          else
            (case find (\<lambda>c. c_id c = comment_id \<and> c_post_id c = post_id \<and> \<not> c_is_deleted c)
                    (comments d) of
               None \<Rightarrow> (d, rc, Inl (HTTPException 404 ''Comment not found''))
             | Some comment \<Rightarrow>
                 if c_is_accepted comment \<and> p_accepted_answer_id post = Some comment_id
                 then
                   (let d1 = upd_comment (c_id comment)
                               (\<lambda>c. c\<lparr>c_is_accepted := False\<rparr>) d;
                        d2 = upd_post (p_id post)
                               (\<lambda>p. p\<lparr>p_accepted_answer_id := None\<rparr>) d1;
                        comment_author = find (\<lambda>u. u_id u = c_author_id comment) (users d2);
                        d3 = karma_add comment_author (- 15) d2
                    in (d3, try_sweep (accept_sweep post_id comment_author) rc,
                        Inr (AcceptDict ''Answer unaccepted'' False)))
                 else
                   (let d1 = unaccept_previous post d;
                        d2 = upd_comment (c_id comment)
                               (\<lambda>c. c\<lparr>c_is_accepted := True\<rparr>) d1;
                        d3 = upd_post (p_id post)
                               (\<lambda>p. p\<lparr>p_accepted_answer_id := Some comment_id\<rparr>) d2;
                        comment_author = find (\<lambda>u. u_id u = c_author_id comment) (users d3);
                        d4 = karma_add comment_author 15 d3
                    in (d4, try_sweep (accept_sweep post_id comment_author) rc,
                        Inr (AcceptDict ''Answer accepted'' True)))))"

section \<open>Commenting (app/routers/posts.py: create_comment, get_comment_response)\<close>

record CommentCreate =
  cc_content :: string
  cc_parent_id :: "int option"
  cc_is_answer :: bool

record ContentAnalysis =
  plain_text :: string
  has_code :: bool
  has_images :: bool

record CommentResponse =
  cr_id :: int
  cr_content :: string
  cr_content_plain :: string
  cr_post_id :: int
  cr_parent_id :: "int option"
  cr_author_id :: int
  cr_author_display_name :: "string option"
  cr_author_is_verified :: bool
  cr_upvote_count :: int
  cr_downvote_count :: int
  cr_reply_count :: int
  cr_is_answer :: bool
  cr_is_accepted :: bool
  cr_has_code :: bool
  cr_has_images :: bool
  cr_is_deleted :: bool

definition get_comment_response :: "Comment \<Rightarrow> db \<Rightarrow> CommentResponse" where
  "get_comment_response comment d =
     (let author = find (\<lambda>u. u_id u = c_author_id comment) (users d)
      in \<lparr>cr_id = c_id comment, cr_content = c_content comment,
          cr_content_plain = c_content_plain comment, cr_post_id = c_post_id comment,
          cr_parent_id = c_parent_id comment, cr_author_id = c_author_id comment,
          cr_author_display_name = map_option u_display_name author,
          cr_author_is_verified = (case author of None \<Rightarrow> False | Some a \<Rightarrow> u_is_verified a),
          cr_upvote_count = c_upvote_count comment,
          cr_downvote_count = c_downvote_count comment,
          cr_reply_count = c_reply_count comment, cr_is_answer = c_is_answer comment,
          cr_is_accepted = c_is_accepted comment, cr_has_code = c_has_code comment,
          cr_has_images = c_has_images comment, cr_is_deleted = c_is_deleted comment\<rparr>)"

definition comment_sweep :: "int \<Rightarrow> User \<Rightarrow> cache_stmt list" where
  "comment_sweep post_id current_user =
     [Delete (''post:'' @ str_int post_id),
      ScanDelete (''post:'' @ str_int post_id @ '':comments:''),
      ScanDelete ''posts:list:'',
      Delete (''user:profile:'' @ u_display_name current_user)]"

text \<open>
  \<open>process_post_content\<close> (the content processor) is a parameter. The new-answer e-mail
  is sent inside its own \<open>try\<close> after the commit and touches neither the store, the cache
  nor the response; it is left out. \<^verbatim>\<open>if comment_data.parent_id:\<close> is truthiness
  again.
\<close>

definition create_comment ::
  "(string \<Rightarrow> string \<times> ContentAnalysis) \<Rightarrow> int \<Rightarrow> CommentCreate \<Rightarrow> User \<Rightarrow> db
    \<Rightarrow> redis_client \<Rightarrow> db \<times> redis_client \<times> (HTTPException + CommentResponse)" where
  "create_comment process_post_content post_id comment_data current_user d rc =
     (case find (\<lambda>p. p_id p = post_id \<and> \<not> p_is_deleted p) (posts d) of
        None \<Rightarrow> (d, rc, Inl (HTTPException 404 ''Post not found''))
      | Some post \<Rightarrow>
          if p_is_locked post
          then (d, rc, Inl (HTTPException 403 ''Post is locked for comments''))
          else
            (let parent_comment =
                   (case cc_parent_id comment_data of
                      None \<Rightarrow> None
                    | Some pid \<Rightarrow>
                        if pid = 0 then None
                        else Some (find (\<lambda>c. c_id c = pid \<and> c_post_id c = post_id \<and>
                                             \<not> c_is_deleted c) (comments d)))
             in if parent_comment = Some None
                then (d, rc, Inl (HTTPException 404 ''Parent comment not found''))
                else
                  (let processed = process_post_content (cc_content comment_data);
                       db_comment =
                         \<lparr>c_id = next_comment_id d, c_content = fst processed,
                          c_content_plain = plain_text (snd processed),
                          c_post_id = post_id, c_author_id = u_id current_user,
                          c_parent_id = cc_parent_id comment_data,
                          c_upvote_count = 0, c_downvote_count = 0, c_reply_count = 0,
                          c_is_answer = cc_is_answer comment_data, c_is_accepted = False,
                          c_has_code = has_code (snd processed),
                          c_has_images = has_images (snd processed),
                          c_is_deleted = False\<rparr>;
                       d1 = d\<lparr>comments := comments d @ [db_comment],
                              next_comment_id := next_comment_id d + 1\<rparr>;
                       d2 = upd_post (p_id post)
                              (\<lambda>p. p\<lparr>p_comment_count := p_comment_count p + 1\<rparr>) d1;
                       d3 = (if cc_is_answer comment_data
                             then upd_post (p_id post)
                                    (\<lambda>p. p\<lparr>p_answer_count := p_answer_count p + 1\<rparr>) d2
                             else d2);
                       d4 = upd_user (u_id current_user)
                              (\<lambda>u. u\<lparr>u_comment_count := u_comment_count u + 1\<rparr>) d3;
                       d5 = (case parent_comment of
                               Some (Some parent) \<Rightarrow>
                                 upd_comment (c_id parent)
                                   (\<lambda>c. c\<lparr>c_reply_count := c_reply_count c + 1\<rparr>) d4
                             | _ \<Rightarrow> d4)
                   in (d5, try_sweep (comment_sweep post_id current_user) rc,
                       Inr (get_comment_response db_comment d5)))))"

section \<open>Profiles and registration (app/routers/users.py, app/routers/auth.py)\<close>

text \<open>
  A field of \<open>UserUpdate\<close> is unset (\<open>None\<close>), or set to a value that may itself be
  \<open>None\<close>. Of the payload, the fields that are columns of the modelled row are kept.
\<close>

record UserUpdate =
  uu_display_name :: "string option option"
  uu_full_name :: "string option option"
  uu_bio :: "string option option"

definition profile_sweep :: "User \<Rightarrow> cache_stmt list" where
  "profile_sweep current_user =
     [Delete (''user:profile:'' @ u_display_name current_user),
      ScanDelete ''users:search:'', ScanDelete ''users:top:'', Delete ''users:stats'']"

text \<open>\<^verbatim>\<open>profile_data.display_name\<close> as a condition: set, not \<open>None\<close> and not empty.\<close>

definition new_display_name :: "UserUpdate \<Rightarrow> string option" where
  "new_display_name profile_data =
     (case uu_display_name profile_data of
        Some (Some n) \<Rightarrow> if n = [] then None else Some n
      | _ \<Rightarrow> None)"

text \<open>The \<open>setattr\<close> loop over the fields that were set, then the \<open>name\<close> field.\<close>

definition apply_update :: "UserUpdate \<Rightarrow> User \<Rightarrow> User" where
  "apply_update profile_data u =
     (let u1 = (case uu_display_name profile_data of
                  Some (Some n) \<Rightarrow> u\<lparr>u_display_name := n\<rparr> | _ \<Rightarrow> u);
          u2 = (case uu_full_name profile_data of
                  Some v \<Rightarrow> u1\<lparr>u_full_name := v\<rparr> | None \<Rightarrow> u1);
          u3 = (case uu_bio profile_data of
                  Some v \<Rightarrow> u2\<lparr>u_bio := v\<rparr> | None \<Rightarrow> u2)
      in case new_display_name profile_data of
           Some n \<Rightarrow> u3\<lparr>u_name := Some n\<rparr>
         | None \<Rightarrow> u3)"

text \<open>
  The sweep of \<open>update_profile\<close> runs first, before the store is touched. A display name
  explicitly set to \<open>None\<close> violates the column's NOT NULL at the commit; the handler
  rolls back and answers 500.
\<close>

definition update_profile ::
  "UserUpdate \<Rightarrow> User \<Rightarrow> db \<Rightarrow> redis_client
    \<Rightarrow> db \<times> redis_client \<times> (HTTPException + User)" where
  "update_profile profile_data current_user d rc =
     (let rc' = try_sweep (profile_sweep current_user) rc;
          taken =
            (case new_display_name profile_data of
               None \<Rightarrow> False
             | Some n \<Rightarrow>
                 n \<noteq> u_display_name current_user \<and>
                 find (\<lambda>u. u_display_name u = n \<and> u_id u \<noteq> u_id current_user) (users d)
                   \<noteq> None)
      in if taken then (d, rc', Inl (HTTPException 400 ''Display name already taken''))
         else if uu_display_name profile_data = Some None
         then (d, rc', Inl (HTTPException 500 ''Error updating profile''))
         else (upd_user (u_id current_user) (apply_update profile_data) d, rc',
               Inr (apply_update profile_data current_user)))"

record UserRegistration =
  ur_email :: string
  ur_username :: string
  ur_display_name :: string
  ur_password :: string
  ur_full_name :: "string option"
  ur_bio :: "string option"

definition lower_char :: "char \<Rightarrow> char" where
  "lower_char c =
     (let n = (of_char c :: nat) in if 65 \<le> n \<and> n \<le> 90 then char_of (n + 32) else c)"

definition register_sweep :: "User \<Rightarrow> cache_stmt list" where
  "register_sweep db_user =
     [NextGetRedis,
      Delete (''auth:username:'' @ map lower_char (u_username db_user)),
      Delete (''auth:email:'' @ u_email db_user),
      Delete (''auth:display_name:'' @ u_display_name db_user),
      Delete ''users:stats'', ScanDelete ''users:top:'']"

text \<open>
  \<open>hash_password\<close> is a parameter. The welcome and verification e-mails, and the token
  row written for them, are outside the modelled tables.
\<close>

definition register_user ::
  "(string \<Rightarrow> string) \<Rightarrow> UserRegistration \<Rightarrow> db \<Rightarrow> redis_client
    \<Rightarrow> db \<times> redis_client \<times> (HTTPException + User)" where
  "register_user hash_password user_data d rc =
     (case find (\<lambda>u. u_email u = ur_email user_data \<or> u_username u = ur_username user_data \<or>
                      u_display_name u = ur_display_name user_data) (users d) of
        Some existing_user \<Rightarrow>
          if u_email existing_user = ur_email user_data
          then (d, rc, Inl (HTTPException 400 ''Email already registered''))
          else if u_username existing_user = ur_username user_data
          then (d, rc, Inl (HTTPException 400 ''Username already taken''))
          else (d, rc, Inl (HTTPException 400 ''Display name already taken''))
      | None \<Rightarrow>
          (let db_user =
                 \<lparr>u_id = next_user_id d, u_email = ur_email user_data,
                  u_username = ur_username user_data,
                  u_display_name = ur_display_name user_data,
                  u_full_name = ur_full_name user_data, u_bio = ur_bio user_data,
                  u_name = Some (ur_display_name user_data),
                  u_password_hash = Some (hash_password (ur_password user_data)),
                  u_is_active = True, u_is_verified = False,
                  u_post_count = 0, u_comment_count = 0, u_karma_score = 0\<rparr>;
               d1 = d\<lparr>users := users d @ [db_user], next_user_id := next_user_id d + 1\<rparr>
           in (d1, try_sweep (register_sweep db_user) rc, Inr db_user)))"

section \<open>Sequences of requests\<close>

text \<open>A run of vote requests by one user on one target; \<open>None\<close> when a request failed.\<close>

fun votes_on_post ::
  "int \<Rightarrow> User \<Rightarrow> VoteType list \<Rightarrow> db \<Rightarrow> redis_client \<Rightarrow> (db \<times> redis_client) option" where
  "votes_on_post post_id current_user [] d rc = Some (d, rc)"
| "votes_on_post post_id current_user (t # ts) d rc =
     (case vote_on_post post_id t current_user d rc of
        (d', rc', Inl e) \<Rightarrow> None
      | (d', rc', Inr r) \<Rightarrow> votes_on_post post_id current_user ts d' rc')"

fun votes_on_comment ::
  "int \<Rightarrow> User \<Rightarrow> VoteType list \<Rightarrow> db \<Rightarrow> redis_client \<Rightarrow> (db \<times> redis_client) option" where
  "votes_on_comment comment_id current_user [] d rc = Some (d, rc)"
| "votes_on_comment comment_id current_user (t # ts) d rc =
     (case vote_on_comment comment_id t current_user d rc of
        (d', rc', Inl e) \<Rightarrow> None
      | (d', rc', Inr r) \<Rightarrow> votes_on_comment comment_id current_user ts d' rc')"

text \<open>Requests of any users on any targets, served one after the other.\<close>

datatype request =
    VoteOnPost int VoteType User
  | VoteOnComment int VoteType User
  | AcceptAnswer int int User
  | CreateComment int CommentCreate User

fun serve ::
  "(string \<Rightarrow> string \<times> ContentAnalysis) \<Rightarrow> request \<Rightarrow> db \<times> redis_client
    \<Rightarrow> db \<times> redis_client" where
  "serve ppc (VoteOnPost i t u) (d, rc) =
     (case vote_on_post i t u d rc of (d', rc', r) \<Rightarrow> (d', rc'))"
| "serve ppc (VoteOnComment i t u) (d, rc) =
     (case vote_on_comment i t u d rc of (d', rc', r) \<Rightarrow> (d', rc'))"
| "serve ppc (AcceptAnswer i j u) (d, rc) =
     (case accept_answer i j u d rc of (d', rc', r) \<Rightarrow> (d', rc'))"
| "serve ppc (CreateComment i cc u) (d, rc) =
     (case create_comment ppc i cc u d rc of (d', rc', r) \<Rightarrow> (d', rc'))"

definition serve_all ::
  "(string \<Rightarrow> string \<times> ContentAnalysis) \<Rightarrow> request list \<Rightarrow> db \<times> redis_client
    \<Rightarrow> db \<times> redis_client" where
  "serve_all ppc reqs s = fold (serve ppc) reqs s"

section \<open>The ledger of the specification (\<section>4.1)\<close>

text \<open>
  The state machine of a (user, target) pair in the specification's words, to compare
  the handlers with: the vote state with the target's two counters and the author's karma.
\<close>

datatype vote_state = NoVote | Upvoted | Downvoted

type_synonym ledger = "vote_state \<times> int \<times> int \<times> int"

fun state_of :: "VoteType \<Rightarrow> vote_state" where
  "state_of UPVOTE = Upvoted"
| "state_of DOWNVOTE = Downvoted"

fun opposite :: "VoteType \<Rightarrow> VoteType" where
  "opposite UPVOTE = DOWNVOTE"
| "opposite DOWNVOTE = UPVOTE"

text \<open>Karma weights: (upvote, downvote).\<close>

definition post_weights :: "int \<times> int" where
  "post_weights = (10, - 2)"

definition comment_weights :: "int \<times> int" where
  "comment_weights = (5, - 1)"

fun forward :: "int \<times> int \<Rightarrow> VoteType \<Rightarrow> int \<times> int \<times> int \<Rightarrow> int \<times> int \<times> int" where
  "forward w UPVOTE (up, down, k) = (up + 1, down, k + fst w)"
| "forward w DOWNVOTE (up, down, k) = (up, down + 1, k + snd w)"

fun reversal :: "int \<times> int \<Rightarrow> VoteType \<Rightarrow> int \<times> int \<times> int \<Rightarrow> int \<times> int \<times> int" where
  "reversal w UPVOTE (up, down, k) = (up - 1, down, k - fst w)"
| "reversal w DOWNVOTE (up, down, k) = (up, down - 1, k - snd w)"

fun transition :: "int \<times> int \<Rightarrow> VoteType \<Rightarrow> ledger \<Rightarrow> ledger" where
  "transition w t (s, c) =
     (if s = NoVote then (state_of t, forward w t c)
      else if s = state_of t then (NoVote, reversal w t c)
      else (state_of t, forward w t (reversal w (opposite t) c)))"

definition replay :: "int \<times> int \<Rightarrow> VoteType list \<Rightarrow> ledger \<Rightarrow> ledger" where
  "replay w ts l = fold (transition w) ts l"

text \<open>What the store holds for a (user, target) pair; \<open>None\<close> without target or author.\<close>

definition post_ledger :: "int \<Rightarrow> int \<Rightarrow> db \<Rightarrow> ledger option" where
  "post_ledger post_id user_id d =
     (case find (\<lambda>p. p_id p = post_id \<and> \<not> p_is_deleted p) (posts d) of
        None \<Rightarrow> None
      | Some post \<Rightarrow>
          (case find (\<lambda>u. u_id u = p_author_id post) (users d) of
             None \<Rightarrow> None
           | Some author \<Rightarrow>
               Some (case find (\<lambda>v. pv_post_id v = post_id \<and> pv_user_id v = user_id)
                            (post_votes d) of
                       None \<Rightarrow> NoVote
                     | Some v \<Rightarrow> state_of (pv_vote_type v),
                     p_upvote_count post, p_downvote_count post, u_karma_score author)))"

definition comment_ledger :: "int \<Rightarrow> int \<Rightarrow> db \<Rightarrow> ledger option" where
  "comment_ledger comment_id user_id d =
     (case find (\<lambda>c. c_id c = comment_id \<and> \<not> c_is_deleted c) (comments d) of
        None \<Rightarrow> None
      | Some comment \<Rightarrow>
          (case find (\<lambda>u. u_id u = c_author_id comment) (users d) of
             None \<Rightarrow> None
           | Some author \<Rightarrow>
               Some (case find (\<lambda>v. cv_comment_id v = comment_id \<and> cv_user_id v = user_id)
                            (comment_votes d) of
                       None \<Rightarrow> NoVote
                     | Some v \<Rightarrow> state_of (cv_vote_type v),
                     c_upvote_count comment, c_downvote_count comment,
                     u_karma_score author)))"

section \<open>Invariants\<close>

text \<open>At most one vote row per (post, user) and per (comment, user).\<close>

definition post_votes_unique :: "db \<Rightarrow> bool" where
  "post_votes_unique d = distinct (map (\<lambda>v. (pv_post_id v, pv_user_id v)) (post_votes d))"

definition comment_votes_unique :: "db \<Rightarrow> bool" where
  "comment_votes_unique d =
     distinct (map (\<lambda>v. (cv_comment_id v, cv_user_id v)) (comment_votes d))"

text \<open>
  The accepted-answer invariant of the specification (\<section>3): at most one accepted
  comment per post, and a set \<open>accepted_answer_id\<close> names an accepted comment of the post.
\<close>

definition accept_invariant :: "db \<Rightarrow> bool" where
  "accept_invariant d =
     (\<forall>p \<in> set (posts d).
        length (filter (\<lambda>c. c_post_id c = p_id p \<and> c_is_accepted c) (comments d)) \<le> 1 \<and>
        (case p_accepted_answer_id p of
           None \<Rightarrow> True
         | Some i \<Rightarrow> \<exists>c \<in> set (comments d). c_id c = i \<and> c_post_id c = p_id p \<and> c_is_accepted c))"

text \<open>
  What the stores the handlers produce satisfy besides: primary keys are unique, comment
  keys are positive and below the next key, and a comment is accepted exactly when its
  post names it. Stated on the columns it depends on.
\<close>

definition accept_rel :: "(int \<times> int option) list \<Rightarrow> (int \<times> int \<times> bool) list \<Rightarrow> int \<Rightarrow> bool" where
  "accept_rel ps cs n =
     (distinct (map fst ps) \<and> distinct (map fst cs) \<and> 0 < n \<and>
      (\<forall>c \<in> set cs. 0 < fst c \<and> fst c < n) \<and>
      (\<forall>p \<in> set ps. case snd p of None \<Rightarrow> True | Some i \<Rightarrow> (i, fst p, True) \<in> set cs) \<and>
      (\<forall>c \<in> set cs. snd (snd c) \<longrightarrow> (fst (snd c), Some (fst c)) \<in> set ps))"

definition accepted_consistent :: "db \<Rightarrow> bool" where
  "accepted_consistent d =
     accept_rel (map (\<lambda>p. (p_id p, p_accepted_answer_id p)) (posts d))
       (map (\<lambda>c. (c_id c, c_post_id c, c_is_accepted c)) (comments d))
       (next_comment_id d)"

text \<open>Karma of the user with key \<open>i\<close>, \<open>None\<close> when there is no such row.\<close>

definition karma_of :: "int \<Rightarrow> db \<Rightarrow> int option" where
  "karma_of i d = map_option u_karma_score (find (\<lambda>u. u_id u = i) (users d))"

section \<open>A sample store\<close>

definition mk_user :: "int \<Rightarrow> string \<Rightarrow> User" where
  "mk_user i n =
     \<lparr>u_id = i, u_email = n @ ''@example.org'', u_username = n, u_display_name = n,
      u_full_name = None, u_bio = None, u_name = Some n, u_password_hash = None,
      u_is_active = True, u_is_verified = False, u_post_count = 0, u_comment_count = 0,
      u_karma_score = 0\<rparr>"

definition mk_post :: "int \<Rightarrow> PostType \<Rightarrow> int \<Rightarrow> bool \<Rightarrow> bool \<Rightarrow> Post" where
  "mk_post i t a locked deleted =
     \<lparr>p_id = i, p_post_type = t, p_author_id = a, p_upvote_count = 0,
      p_downvote_count = 0, p_comment_count = 0, p_answer_count = 0,
      p_is_answered = False, p_accepted_answer_id = None, p_is_locked = locked,
      p_is_deleted = deleted\<rparr>"

definition mk_comment :: "int \<Rightarrow> int \<Rightarrow> int \<Rightarrow> Comment" where
  "mk_comment i p a =
     \<lparr>c_id = i, c_content = ''an answer'', c_content_plain = ''an answer'', c_post_id = p,
      c_author_id = a, c_parent_id = None, c_upvote_count = 0, c_downvote_count = 0,
      c_reply_count = 0, c_is_answer = True, c_is_accepted = False, c_has_code = False,
      c_has_images = False, c_is_deleted = False\<rparr>"

definition alice :: User where "alice = mk_user 1 ''alice''"
definition bob :: User where "bob = mk_user 2 ''bob''"
definition carol :: User where "carol = mk_user 3 ''carol''"
definition dave :: User where "dave = mk_user 4 ''dave''"

text \<open>
  Alice's question 1 with answers 1 (Carol) and 2 (Dave); her deleted question 2, her
  locked question 3 and her discussion 4; no votes yet.
\<close>

definition store0 :: db where
  "store0 =
     \<lparr>users = [alice, bob, carol, dave],
      posts = [mk_post 1 QUESTION 1 False False, mk_post 2 QUESTION 1 False True,
               mk_post 3 QUESTION 1 True False, mk_post 4 DISCUSSION 1 False False],
      comments = [mk_comment 1 1 3, mk_comment 2 1 4],
      post_votes = [], comment_votes = [],
      next_user_id = 5, next_comment_id = 3, next_post_vote_id = 1,
      next_comment_vote_id = 1\<rparr>"

text \<open>
  The same store after Bob's upvotes on question 1 and on answer 1: a vote row each,
  Alice's karma at 10 and Carol's at 5.
\<close>

definition store1 :: db where
  "store1 =
     store0\<lparr>users := [alice\<lparr>u_karma_score := 10\<rparr>, bob, carol\<lparr>u_karma_score := 5\<rparr>, dave],
       posts := [(mk_post 1 QUESTION 1 False False)\<lparr>p_upvote_count := 1\<rparr>,
                 mk_post 2 QUESTION 1 False True, mk_post 3 QUESTION 1 True False,
                 mk_post 4 DISCUSSION 1 False False],
       comments := [(mk_comment 1 1 3)\<lparr>c_upvote_count := 1\<rparr>, mk_comment 2 1 4],
       post_votes := [\<lparr>pv_id = 1, pv_post_id = 1, pv_user_id = 2, pv_vote_type = UPVOTE\<rparr>],
       comment_votes :=
         [\<lparr>cv_id = 1, cv_comment_id = 1, cv_user_id = 2, cv_vote_type = UPVOTE\<rparr>],
       next_post_vote_id := 2, next_comment_vote_id := 2\<rparr>"

text \<open>The sample store after Alice has accepted answer 1: Carol's karma at 15.\<close>

definition store2 :: db where
  "store2 =
     store0\<lparr>users := [alice, bob, carol\<lparr>u_karma_score := 15\<rparr>, dave],
       posts := [(mk_post 1 QUESTION 1 False False)\<lparr>p_accepted_answer_id := Some 1\<rparr>,
                 mk_post 2 QUESTION 1 False True, mk_post 3 QUESTION 1 True False,
                 mk_post 4 DISCUSSION 1 False False],
       comments := [(mk_comment 1 1 3)\<lparr>c_is_accepted := True\<rparr>, mk_comment 2 1 4]\<rparr>"

section \<open>Lookups and row updates\<close>

lemma find_map_pres:
  assumes "\<And>x. P (g x) = P x"
  shows "find P (map g xs) = map_option g (find P xs)"
  using assms by (induction xs) auto

lemma find_append_None:
  "find P xs = None \<Longrightarrow> find P (xs @ ys) = find P ys"
  by (induction xs) (auto split: if_splits)

lemma find_append_Some:
  "find P xs = Some x \<Longrightarrow> find P (xs @ ys) = Some x"
  by (induction xs) (auto split: if_splits)

lemma find_SomeD: "find P xs = Some x \<Longrightarrow> P x \<and> x \<in> set xs"
  by (induction xs) (auto split: if_splits)

lemma upd_user_simps [simp]:
  "users (upd_user i f d) = map (\<lambda>u. if u_id u = i then f u else u) (users d)"
  "posts (upd_user i f d) = posts d"
  "comments (upd_user i f d) = comments d"
  "post_votes (upd_user i f d) = post_votes d"
  "comment_votes (upd_user i f d) = comment_votes d"
  "next_user_id (upd_user i f d) = next_user_id d"
  "next_comment_id (upd_user i f d) = next_comment_id d"
  "next_post_vote_id (upd_user i f d) = next_post_vote_id d"
  "next_comment_vote_id (upd_user i f d) = next_comment_vote_id d"
  by (simp_all add: upd_user_def)

lemma upd_post_simps [simp]:
  "users (upd_post i f d) = users d"
  "posts (upd_post i f d) = map (\<lambda>p. if p_id p = i then f p else p) (posts d)"
  "comments (upd_post i f d) = comments d"
  "post_votes (upd_post i f d) = post_votes d"
  "comment_votes (upd_post i f d) = comment_votes d"
  "next_user_id (upd_post i f d) = next_user_id d"
  "next_comment_id (upd_post i f d) = next_comment_id d"
  "next_post_vote_id (upd_post i f d) = next_post_vote_id d"
  "next_comment_vote_id (upd_post i f d) = next_comment_vote_id d"
  by (simp_all add: upd_post_def)

lemma upd_comment_simps [simp]:
  "users (upd_comment i f d) = users d"
  "posts (upd_comment i f d) = posts d"
  "comments (upd_comment i f d) = map (\<lambda>c. if c_id c = i then f c else c) (comments d)"
  "post_votes (upd_comment i f d) = post_votes d"
  "comment_votes (upd_comment i f d) = comment_votes d"
  "next_user_id (upd_comment i f d) = next_user_id d"
  "next_comment_id (upd_comment i f d) = next_comment_id d"
  "next_post_vote_id (upd_comment i f d) = next_post_vote_id d"
  "next_comment_vote_id (upd_comment i f d) = next_comment_vote_id d"
  by (simp_all add: upd_comment_def)

lemma karma_add_simps [simp]:
  "posts (karma_add a n d) = posts d"
  "comments (karma_add a n d) = comments d"
  "post_votes (karma_add a n d) = post_votes d"
  "comment_votes (karma_add a n d) = comment_votes d"
  "next_user_id (karma_add a n d) = next_user_id d"
  "next_comment_id (karma_add a n d) = next_comment_id d"
  "next_post_vote_id (karma_add a n d) = next_post_vote_id d"
  "next_comment_vote_id (karma_add a n d) = next_comment_vote_id d"
  by (simp_all add: karma_add_def split: option.splits)

lemma unaccept_previous_posts [simp]: "posts (unaccept_previous post d) = posts d"
  by (simp add: unaccept_previous_def Let_def split: option.splits)

section \<open>Accepting an answer leaves \<open>is_answered\<close> alone\<close>

lemma map_is_answered_upd:
  "map (\<lambda>p. (p_id p, p_is_answered p))
     (map (\<lambda>p. if p_id p = i then p\<lparr>p_accepted_answer_id := a\<rparr> else p) ps)
     = map (\<lambda>p. (p_id p, p_is_answered p)) ps"
  by (induction ps) auto

text \<open>
  C10. Whatever \<open>accept_answer\<close> does (accept, transfer, unaccept or refuse), every post
  keeps the value of \<open>is_answered\<close> it had: the flag does not follow
  \<open>accepted_answer_id\<close>.
\<close>

theorem accept_answer_keeps_is_answered:
  "map (\<lambda>p. (p_id p, p_is_answered p))
     (posts (fst (accept_answer post_id comment_id current_user d rc)))
     = map (\<lambda>p. (p_id p, p_is_answered p)) (posts d)"
  by (simp add: accept_answer_def Let_def map_is_answered_upd split: option.splits)

section \<open>The three branches of a vote on a post\<close>

lemma vote_on_post_create:
  assumes "find (\<lambda>p. p_id p = pid \<and> \<not> p_is_deleted p) (posts d) = Some post"
    and "find (\<lambda>v. pv_post_id v = pid \<and> pv_user_id v = u_id cu) (post_votes d) = None"
  shows "vote_on_post pid t cu d rc =
    (karma_add (find (\<lambda>u. u_id u = p_author_id post) (users d)) (if t = UPVOTE then 10 else - 2)
       (upd_post (p_id post)
          (\<lambda>p. if t = UPVOTE then p\<lparr>p_upvote_count := p_upvote_count p + 1\<rparr>
               else p\<lparr>p_downvote_count := p_downvote_count p + 1\<rparr>)
          (d\<lparr>post_votes := post_votes d @
                [\<lparr>pv_id = next_post_vote_id d, pv_post_id = pid, pv_user_id = u_id cu,
                  pv_vote_type = t\<rparr>],
              next_post_vote_id := next_post_vote_id d + 1\<rparr>)),
     try_sweep (post_vote_sweep pid (find (\<lambda>u. u_id u = p_author_id post) (users d))) rc,
     Inr (ReturnVote \<lparr>vr_id = next_post_vote_id d, vr_vote_type = t\<rparr>))"
  using assms by (simp add: vote_on_post_def Let_def)

lemma vote_on_post_toggle:
  assumes "find (\<lambda>p. p_id p = pid \<and> \<not> p_is_deleted p) (posts d) = Some post"
    and "find (\<lambda>v. pv_post_id v = pid \<and> pv_user_id v = u_id cu) (post_votes d) = Some ev"
    and "pv_vote_type ev = t"
  shows "vote_on_post pid t cu d rc =
    ((karma_add (find (\<lambda>u. u_id u = p_author_id post) (users d)) (if t = UPVOTE then - 10 else 2)
       (upd_post (p_id post)
          (\<lambda>p. if t = UPVOTE then p\<lparr>p_upvote_count := p_upvote_count p - 1\<rparr>
               else p\<lparr>p_downvote_count := p_downvote_count p - 1\<rparr>) d))
       \<lparr>post_votes := filter (\<lambda>v. pv_id v \<noteq> pv_id ev) (post_votes d)\<rparr>,
     try_sweep (post_vote_sweep pid (find (\<lambda>u. u_id u = p_author_id post) (users d))) rc,
     Inr (ReturnDict [(''message'', ''Vote removed''), (''action'', ''removed'')]))"
  using assms by (simp add: vote_on_post_def Let_def)

lemma vote_on_post_change:
  assumes "find (\<lambda>p. p_id p = pid \<and> \<not> p_is_deleted p) (posts d) = Some post"
    and "find (\<lambda>v. pv_post_id v = pid \<and> pv_user_id v = u_id cu) (post_votes d) = Some ev"
    and "pv_vote_type ev \<noteq> t"
  shows "vote_on_post pid t cu d rc =
    (karma_add (find (\<lambda>u. u_id u = p_author_id post) (users d)) (if t = UPVOTE then 10 else - 2)
      (karma_add (find (\<lambda>u. u_id u = p_author_id post) (users d)) (if t = UPVOTE then 2 else - 10)
       (upd_post (p_id post)
          (\<lambda>p. if t = UPVOTE
               then p\<lparr>p_downvote_count := p_downvote_count p - 1,
                      p_upvote_count := p_upvote_count p + 1\<rparr>
               else p\<lparr>p_upvote_count := p_upvote_count p - 1,
                      p_downvote_count := p_downvote_count p + 1\<rparr>)
          (d\<lparr>post_votes := map (\<lambda>v. if pv_id v = pv_id ev then v\<lparr>pv_vote_type := t\<rparr> else v)
                (post_votes d)\<rparr>))),
     try_sweep (post_vote_sweep pid (find (\<lambda>u. u_id u = p_author_id post) (users d))) rc,
     Inr (ReturnVote \<lparr>vr_id = pv_id ev, vr_vote_type = t\<rparr>))"
  using assms by (cases t; cases "pv_vote_type ev"; hypsubst) (simp_all add: vote_on_post_def Let_def)

section \<open>One vote row per user and post\<close>

lemma find_post_upd:
  assumes "\<And>p. p_id (f p) = p_id p" "\<And>p. p_is_deleted (f p) = p_is_deleted p"
  shows "find (\<lambda>p. p_id p = pid \<and> \<not> p_is_deleted p) (map (\<lambda>p. if p_id p = i then f p else p) ps)
       = map_option (\<lambda>p. if p_id p = i then f p else p)
           (find (\<lambda>p. p_id p = pid \<and> \<not> p_is_deleted p) ps)"
  by (rule find_map_pres) (simp add: assms)

lemma find_user_upd:
  assumes "\<And>u. u_id (f u) = u_id u"
  shows "find (\<lambda>u. u_id u = a) (map (\<lambda>u. if u_id u = i then f u else u) us)
       = map_option (\<lambda>u. if u_id u = i then f u else u) (find (\<lambda>u. u_id u = a) us)"
  by (rule find_map_pres) (simp add: assms)

lemma users_karma_add:
  "users (karma_add a n d) =
     (case a of None \<Rightarrow> users d
      | Some x \<Rightarrow> map (\<lambda>u. if u_id u = u_id x then u\<lparr>u_karma_score := u_karma_score u + n\<rparr> else u)
                   (users d))"
  by (simp add: karma_add_def split: option.splits)

lemma post_votes_vote_on_post:
  "post_votes (fst (vote_on_post pid t cu d rc)) =
     (case find (\<lambda>p. p_id p = pid \<and> \<not> p_is_deleted p) (posts d) of
        None \<Rightarrow> post_votes d
      | Some post \<Rightarrow>
          (case find (\<lambda>v. pv_post_id v = pid \<and> pv_user_id v = u_id cu) (post_votes d) of
             None \<Rightarrow> post_votes d @ [\<lparr>pv_id = next_post_vote_id d, pv_post_id = pid,
                                      pv_user_id = u_id cu, pv_vote_type = t\<rparr>]
           | Some ev \<Rightarrow>
               if pv_vote_type ev = t
               then filter (\<lambda>v. pv_id v \<noteq> pv_id ev) (post_votes d)
               else map (\<lambda>v. if pv_id v = pv_id ev then v\<lparr>pv_vote_type := t\<rparr> else v)
                      (post_votes d)))"
  by (simp add: vote_on_post_def Let_def split: option.splits)

lemma post_vote_key_retype:
  "map (\<lambda>v. (pv_post_id v, pv_user_id v))
     (map (\<lambda>v. if pv_id v = i then v\<lparr>pv_vote_type := t\<rparr> else v) xs)
   = map (\<lambda>v. (pv_post_id v, pv_user_id v)) xs"
  by (induction xs) auto

lemma post_votes_unique_vote_on_post:
  assumes "post_votes_unique d"
  shows "post_votes_unique (fst (vote_on_post pid t cu d rc))"
proof -
  let ?key = "\<lambda>v. (pv_post_id v, pv_user_id v)"
  have D: "distinct (map ?key (post_votes d))"
    using assms by (simp add: post_votes_unique_def)
  show ?thesis
  proof (cases "find (\<lambda>p. p_id p = pid \<and> \<not> p_is_deleted p) (posts d)")
    case None
    then show ?thesis
      using D by (simp add: post_votes_unique_def post_votes_vote_on_post)
  next
    case P: (Some post)
    show ?thesis
    proof (cases "find (\<lambda>v. pv_post_id v = pid \<and> pv_user_id v = u_id cu) (post_votes d)")
      case None
      then have "(pid, u_id cu) \<notin> set (map ?key (post_votes d))"
        by (auto simp: find_None_iff)
      with D P None show ?thesis
        by (simp add: post_votes_unique_def post_votes_vote_on_post)
    next
      case E: (Some ev)
      show ?thesis
      proof (cases "pv_vote_type ev = t")
        case True
        with P E show ?thesis
          using distinct_map_filter[OF D]
          by (simp add: post_votes_unique_def post_votes_vote_on_post)
      next
        case False
        with P E show ?thesis
          using D
          by (simp add: post_votes_unique_def post_votes_vote_on_post post_vote_key_retype
                del: map_map)
      qed
    qed
  qed
qed

section \<open>A vote on a post is a transition of the ledger\<close>

lemma post_ledger_SomeD:
  assumes "post_ledger pid uid d = Some l"
  obtains post a where
    "find (\<lambda>p. p_id p = pid \<and> \<not> p_is_deleted p) (posts d) = Some post"
    "find (\<lambda>u. u_id u = p_author_id post) (users d) = Some a"
    "l = (case find (\<lambda>v. pv_post_id v = pid \<and> pv_user_id v = uid) (post_votes d) of
            None \<Rightarrow> NoVote | Some v \<Rightarrow> state_of (pv_vote_type v),
          p_upvote_count post, p_downvote_count post, u_karma_score a)"
  using assms by (auto simp: post_ledger_def split: option.splits)

lemma unique_vote_removed:
  assumes D: "distinct (map (\<lambda>v. (pv_post_id v, pv_user_id v)) vs)"
    and E: "find (\<lambda>v. pv_post_id v = pid \<and> pv_user_id v = uid) vs = Some ev"
  shows "find (\<lambda>v. pv_post_id v = pid \<and> pv_user_id v = uid)
           (filter (\<lambda>v. pv_id v \<noteq> pv_id ev) vs) = None"
proof -
  have ev: "ev \<in> set vs" "pv_post_id ev = pid" "pv_user_id ev = uid"
    using find_SomeD[OF E] by auto
  have "v = ev" if "v \<in> set vs" "pv_post_id v = pid" "pv_user_id v = uid" for v
    using D that ev by (auto simp: distinct_map inj_on_def)
  then show ?thesis
    by (auto simp: find_None_iff)
qed

lemma vote_retyped:
  assumes E: "find (\<lambda>v. pv_post_id v = pid \<and> pv_user_id v = uid) vs = Some ev"
  shows "find (\<lambda>v. pv_post_id v = pid \<and> pv_user_id v = uid)
           (map (\<lambda>v. if pv_id v = pv_id ev then v\<lparr>pv_vote_type := t\<rparr> else v) vs)
         = Some (ev\<lparr>pv_vote_type := t\<rparr>)"
proof -
  have "find (\<lambda>v. pv_post_id v = pid \<and> pv_user_id v = uid)
           (map (\<lambda>v. if pv_id v = pv_id ev then v\<lparr>pv_vote_type := t\<rparr> else v) vs)
      = map_option (\<lambda>v. if pv_id v = pv_id ev then v\<lparr>pv_vote_type := t\<rparr> else v)
          (find (\<lambda>v. pv_post_id v = pid \<and> pv_user_id v = uid) vs)"
    by (rule find_map_pres) simp
  then show ?thesis by (simp add: E)
qed

lemma karma_add_twice: "karma_add a m (karma_add a n d) = karma_add a (n + m) d"
proof (cases a)
  case None
  then show ?thesis by (simp add: karma_add_def)
next
  case (Some x)
  have "map (\<lambda>u. if u_id u = u_id x then u\<lparr>u_karma_score := u_karma_score u + m\<rparr> else u)
          (map (\<lambda>u. if u_id u = u_id x then u\<lparr>u_karma_score := u_karma_score u + n\<rparr> else u) us)
      = map (\<lambda>u. if u_id u = u_id x then u\<lparr>u_karma_score := u_karma_score u + (n + m)\<rparr> else u) us"
    for us :: "User list"
    by (induction us) auto
  with Some show ?thesis
    by (simp add: karma_add_def upd_user_def del: map_map)
qed

lemma vote_on_post_step:
  assumes L: "post_ledger pid (u_id cu) d = Some l" and U: "post_votes_unique d"
  shows "\<exists>d' rc' r. vote_on_post pid t cu d rc = (d', rc', Inr r) \<and>
           post_ledger pid (u_id cu) d' = Some (transition post_weights t l)"
proof -
  from L obtain post a where
    P: "find (\<lambda>p. p_id p = pid \<and> \<not> p_is_deleted p) (posts d) = Some post" and
    A: "find (\<lambda>u. u_id u = p_author_id post) (users d) = Some a" and
    l: "l = (case find (\<lambda>v. pv_post_id v = pid \<and> pv_user_id v = u_id cu) (post_votes d) of
            None \<Rightarrow> NoVote | Some v \<Rightarrow> state_of (pv_vote_type v),
          p_upvote_count post, p_downvote_count post, u_karma_score a)"
    by (rule post_ledger_SomeD)
  have pid: "p_id post = pid" "\<not> p_is_deleted post" using find_SomeD[OF P] by auto
  have aid: "u_id a = p_author_id post" using find_SomeD[OF A] by auto
  have D: "distinct (map (\<lambda>v. (pv_post_id v, pv_user_id v)) (post_votes d))"
    using U by (simp add: post_votes_unique_def)
  show ?thesis
  proof (cases "find (\<lambda>v. pv_post_id v = pid \<and> pv_user_id v = u_id cu) (post_votes d)")
    case None
    show ?thesis
      unfolding vote_on_post_create[OF P None]
      by (cases t)
         (simp_all add: post_ledger_def find_post_upd find_user_upd users_karma_add P A pid aid l
            None find_append_None post_weights_def)
  next
    case E: (Some ev)
    show ?thesis
    proof (cases "pv_vote_type ev = t")
      case True
      show ?thesis
        unfolding vote_on_post_toggle[OF P E True]
        using True
        by (cases t)
           (simp_all add: post_ledger_def find_post_upd find_user_upd users_karma_add P A pid aid l
              E unique_vote_removed[OF D E] post_weights_def)
    next
      case False
      show ?thesis
        unfolding vote_on_post_change[OF P E False] karma_add_twice
        using False
        by (cases t; cases "pv_vote_type ev")
           (simp_all add: post_ledger_def find_post_upd find_user_upd users_karma_add P A pid aid l
              E vote_retyped[OF E] post_weights_def)
    qed
  qed
qed

section \<open>Voting twice with the same type\<close>

lemma karma_roundtrip:
  "n + m = 0 \<Longrightarrow>
   map (\<lambda>u. if u_id u = i then u\<lparr>u_karma_score := u_karma_score u + m\<rparr> else u)
     (map (\<lambda>u. if u_id u = i then u\<lparr>u_karma_score := u_karma_score u + n\<rparr> else u) us) = us"
  for us :: "User list"
  by (induction us) auto

lemma karma_add_cong_id:
  "map_option u_id a = map_option u_id b \<Longrightarrow> karma_add a n d = karma_add b n d"
  by (cases a; cases b) (simp_all add: karma_add_def)

lemma karma_add_undo:
  assumes "n + m = 0"
  shows "karma_add a m (karma_add a n d) = d"
  unfolding karma_add_twice
  by (cases a) (simp_all add: karma_add_def upd_user_def assms map_idI)

lemma karma_add_upd_post: "karma_add a n (upd_post i f d) = upd_post i f (karma_add a n d)"
  by (cases a) (simp_all add: karma_add_def upd_post_def upd_user_def)

lemma upd_post_undo:
  assumes "\<And>p. g (f p) = p" "\<And>p. p_id (f p) = p_id p"
  shows "upd_post i g (upd_post i f d) = d"
proof -
  have "map (\<lambda>p. if p_id p = i then g p else p) (map (\<lambda>p. if p_id p = i then f p else p) ps) = ps"
    for ps :: "Post list"
    by (induction ps) (auto simp: assms)
  then show ?thesis
    by (simp add: upd_post_def del: map_map)
qed


lemma toggle_off_post:
  assumes P: "find (\<lambda>p. p_id p = pid \<and> \<not> p_is_deleted p) (posts d) = Some post"
    and N: "find (\<lambda>v. pv_post_id v = pid \<and> pv_user_id v = u_id cu) (post_votes d) = None"
    and F: "\<forall>v \<in> set (post_votes d). pv_id v \<noteq> next_post_vote_id d"
  shows "\<exists>d1 rc1 r1 rc2.
           vote_on_post pid t cu d rc = (d1, rc1, Inr r1) \<and>
           vote_on_post pid t cu d1 rc1 =
             (d\<lparr>next_post_vote_id := next_post_vote_id d + 1\<rparr>, rc2,
              Inr (ReturnDict [(''message'', ''Vote removed''), (''action'', ''removed'')]))"
proof -
  define A where "A = find (\<lambda>u. u_id u = p_author_id post) (users d)"
  define nv where "nv = \<lparr>pv_id = next_post_vote_id d, pv_post_id = pid, pv_user_id = u_id cu,
              pv_vote_type = t\<rparr>"
  define f :: "Post \<Rightarrow> Post" where "f = (\<lambda>p. if t = UPVOTE then p\<lparr>p_upvote_count := p_upvote_count p + 1\<rparr>
               else p\<lparr>p_downvote_count := p_downvote_count p + 1\<rparr>)"
  define g :: "Post \<Rightarrow> Post" where "g = (\<lambda>p. if t = UPVOTE then p\<lparr>p_upvote_count := p_upvote_count p - 1\<rparr>
               else p\<lparr>p_downvote_count := p_downvote_count p - 1\<rparr>)"
  define k :: int where "k = (if t = UPVOTE then 10 else - 2)"
  define k' :: int where "k' = (if t = UPVOTE then - 10 else 2)"
  define d0 where "d0 = d\<lparr>post_votes := post_votes d @ [nv],
              next_post_vote_id := next_post_vote_id d + 1\<rparr>"
  define d1 where "d1 = karma_add A k (upd_post (p_id post) f d0)"
  have pid: "p_id post = pid" using find_SomeD[OF P] by simp
  have fid: "p_id (f p) = p_id p" "p_is_deleted (f p) = p_is_deleted p"
    "p_author_id (f p) = p_author_id p" "g (f p) = p" for p
    by (simp_all add: f_def g_def)
  have kk: "k + k' = 0" by (simp add: k_def k'_def)
  have first: "vote_on_post pid t cu d rc =
      (d1, try_sweep (post_vote_sweep pid A) rc,
       Inr (ReturnVote \<lparr>vr_id = next_post_vote_id d, vr_vote_type = t\<rparr>))"
    unfolding d1_def d0_def A_def nv_def f_def k_def
    by (rule vote_on_post_create[OF P N])
  have P1: "find (\<lambda>p. p_id p = pid \<and> \<not> p_is_deleted p) (posts d1) = Some (f post)"
    by (simp add: d1_def d0_def find_post_upd fid P pid)
  have pv1: "post_votes d1 = post_votes d @ [nv]"
    by (simp add: d1_def d0_def)
  have E1: "find (\<lambda>v. pv_post_id v = pid \<and> pv_user_id v = u_id cu) (post_votes d1) = Some nv"
    by (simp add: pv1 find_append_None[OF N] nv_def)
  have T1: "pv_vote_type nv = t" by (simp add: nv_def)
  define A1 where "A1 = find (\<lambda>u. u_id u = p_author_id (f post)) (users d1)"
  have A1: "map_option u_id A1 = map_option u_id A"
    unfolding A1_def d1_def A_def
    by (cases "find (\<lambda>u. u_id u = p_author_id post) (users d)")
       (simp_all add: users_karma_add find_user_upd fid d0_def)
  have second: "vote_on_post pid t cu d1 rc1 =
      ((karma_add A1 k' (upd_post (p_id (f post)) g d1))
          \<lparr>post_votes := filter (\<lambda>v. pv_id v \<noteq> pv_id nv) (post_votes d1)\<rparr>,
       try_sweep (post_vote_sweep pid A1) rc1,
       Inr (ReturnDict [(''message'', ''Vote removed''), (''action'', ''removed'')]))" for rc1
    unfolding A1_def g_def k'_def
    by (rule vote_on_post_toggle[OF P1 E1 T1])
  have undo: "karma_add A1 k' (upd_post (p_id (f post)) g d1) = d0"
  proof -
    have "karma_add A1 k' (upd_post (p_id (f post)) g d1)
        = karma_add A k' (upd_post (p_id post) g (karma_add A k (upd_post (p_id post) f d0)))"
      by (simp add: karma_add_cong_id[OF A1] fid d1_def)
    also have "\<dots> = karma_add A k' (karma_add A k (upd_post (p_id post) g (upd_post (p_id post) f d0)))"
      by (simp add: karma_add_upd_post)
    also have "\<dots> = upd_post (p_id post) g (upd_post (p_id post) f d0)"
      by (rule karma_add_undo[OF kk])
    also have "\<dots> = d0"
      by (rule upd_post_undo) (simp_all add: fid)
    finally show ?thesis .
  qed
  have flt: "filter (\<lambda>v. pv_id v \<noteq> pv_id nv) (post_votes d1) = post_votes d"
    using F by (simp add: pv1 nv_def filter_id_conv)
  have rest: "d0\<lparr>post_votes := post_votes d\<rparr> = d\<lparr>next_post_vote_id := next_post_vote_id d + 1\<rparr>"
    by (simp add: d0_def)
  show ?thesis
    using first second[unfolded undo flt rest] by blast
qed

section \<open>Votes on comments\<close>

lemma vote_on_comment_create:
  assumes "find (\<lambda>p. c_id p = cid \<and> \<not> c_is_deleted p) (comments d) = Some comment"
    and "find (\<lambda>v. cv_comment_id v = cid \<and> cv_user_id v = u_id cu) (comment_votes d) = None"
  shows "vote_on_comment cid t cu d rc =
    (karma_add (find (\<lambda>u. u_id u = c_author_id comment) (users d)) (if t = UPVOTE then 5 else - 1)
       (upd_comment (c_id comment)
          (\<lambda>p. if t = UPVOTE then p\<lparr>c_upvote_count := c_upvote_count p + 1\<rparr>
               else p\<lparr>c_downvote_count := c_downvote_count p + 1\<rparr>)
          (d\<lparr>comment_votes := comment_votes d @
                [\<lparr>cv_id = next_comment_vote_id d, cv_comment_id = cid, cv_user_id = u_id cu,
                  cv_vote_type = t\<rparr>],
              next_comment_vote_id := next_comment_vote_id d + 1\<rparr>)),
     try_sweep (comment_vote_sweep (c_post_id comment) (find (\<lambda>u. u_id u = c_author_id comment) (users d))) rc,
     Inr (ReturnVote \<lparr>vr_id = next_comment_vote_id d, vr_vote_type = t\<rparr>))"
  using assms by (simp add: vote_on_comment_def Let_def)

lemma vote_on_comment_toggle:
  assumes "find (\<lambda>p. c_id p = cid \<and> \<not> c_is_deleted p) (comments d) = Some comment"
    and "find (\<lambda>v. cv_comment_id v = cid \<and> cv_user_id v = u_id cu) (comment_votes d) = Some ev"
    and "cv_vote_type ev = t"
  shows "vote_on_comment cid t cu d rc =
    ((karma_add (find (\<lambda>u. u_id u = c_author_id comment) (users d)) (if t = UPVOTE then - 5 else 1)
       (upd_comment (c_id comment)
          (\<lambda>p. if t = UPVOTE then p\<lparr>c_upvote_count := c_upvote_count p - 1\<rparr>
               else p\<lparr>c_downvote_count := c_downvote_count p - 1\<rparr>) d))
       \<lparr>comment_votes := filter (\<lambda>v. cv_id v \<noteq> cv_id ev) (comment_votes d)\<rparr>,
     try_sweep (comment_vote_sweep (c_post_id comment) (find (\<lambda>u. u_id u = c_author_id comment) (users d))) rc,
     Inr (ReturnDict [(''message'', ''Vote removed''), (''action'', ''removed'')]))"
  using assms by (simp add: vote_on_comment_def Let_def)

lemma vote_on_comment_change:
  assumes "find (\<lambda>p. c_id p = cid \<and> \<not> c_is_deleted p) (comments d) = Some comment"
    and "find (\<lambda>v. cv_comment_id v = cid \<and> cv_user_id v = u_id cu) (comment_votes d) = Some ev"
    and "cv_vote_type ev \<noteq> t"
  shows "vote_on_comment cid t cu d rc =
    (karma_add (find (\<lambda>u. u_id u = c_author_id comment) (users d)) (if t = UPVOTE then 5 else - 1)
      (karma_add (find (\<lambda>u. u_id u = c_author_id comment) (users d)) (if t = UPVOTE then 1 else - 5)
       (upd_comment (c_id comment)
          (\<lambda>p. if t = UPVOTE
               then p\<lparr>c_downvote_count := c_downvote_count p - 1,
                      c_upvote_count := c_upvote_count p + 1\<rparr>
               else p\<lparr>c_upvote_count := c_upvote_count p - 1,
                      c_downvote_count := c_downvote_count p + 1\<rparr>)
          (d\<lparr>comment_votes := map (\<lambda>v. if cv_id v = cv_id ev then v\<lparr>cv_vote_type := t\<rparr> else v)
                (comment_votes d)\<rparr>))),
     try_sweep (comment_vote_sweep (c_post_id comment) (find (\<lambda>u. u_id u = c_author_id comment) (users d))) rc,
     Inr (ReturnVote \<lparr>vr_id = cv_id ev, vr_vote_type = t\<rparr>))"
  using assms by (cases t; cases "cv_vote_type ev"; hypsubst) (simp_all add: vote_on_comment_def Let_def)

lemma find_comment_upd:
  assumes "\<And>p. c_id (f p) = c_id p" "\<And>p. c_is_deleted (f p) = c_is_deleted p"
  shows "find (\<lambda>p. c_id p = cid \<and> \<not> c_is_deleted p) (map (\<lambda>p. if c_id p = i then f p else p) ps)
       = map_option (\<lambda>p. if c_id p = i then f p else p)
           (find (\<lambda>p. c_id p = cid \<and> \<not> c_is_deleted p) ps)"
  by (rule find_map_pres) (simp add: assms)

lemma comment_votes_vote_on_comment:
  "comment_votes (fst (vote_on_comment cid t cu d rc)) =
     (case find (\<lambda>p. c_id p = cid \<and> \<not> c_is_deleted p) (comments d) of
        None \<Rightarrow> comment_votes d
      | Some comment \<Rightarrow>
          (case find (\<lambda>v. cv_comment_id v = cid \<and> cv_user_id v = u_id cu) (comment_votes d) of
             None \<Rightarrow> comment_votes d @ [\<lparr>cv_id = next_comment_vote_id d, cv_comment_id = cid,
                                      cv_user_id = u_id cu, cv_vote_type = t\<rparr>]
           | Some ev \<Rightarrow>
               if cv_vote_type ev = t
               then filter (\<lambda>v. cv_id v \<noteq> cv_id ev) (comment_votes d)
               else map (\<lambda>v. if cv_id v = cv_id ev then v\<lparr>cv_vote_type := t\<rparr> else v)
                      (comment_votes d)))"
  by (simp add: vote_on_comment_def Let_def split: option.splits)

lemma comment_vote_key_retype:
  "map (\<lambda>v. (cv_comment_id v, cv_user_id v))
     (map (\<lambda>v. if cv_id v = i then v\<lparr>cv_vote_type := t\<rparr> else v) xs)
   = map (\<lambda>v. (cv_comment_id v, cv_user_id v)) xs"
  by (induction xs) auto

lemma comment_votes_unique_vote_on_comment:
  assumes "comment_votes_unique d"
  shows "comment_votes_unique (fst (vote_on_comment cid t cu d rc))"
proof -
  let ?key = "\<lambda>v. (cv_comment_id v, cv_user_id v)"
  have D: "distinct (map ?key (comment_votes d))"
    using assms by (simp add: comment_votes_unique_def)
  show ?thesis
  proof (cases "find (\<lambda>p. c_id p = cid \<and> \<not> c_is_deleted p) (comments d)")
    case None
    then show ?thesis
      using D by (simp add: comment_votes_unique_def comment_votes_vote_on_comment)
  next
    case P: (Some comment)
    show ?thesis
    proof (cases "find (\<lambda>v. cv_comment_id v = cid \<and> cv_user_id v = u_id cu) (comment_votes d)")
      case None
      then have "(cid, u_id cu) \<notin> set (map ?key (comment_votes d))"
        by (auto simp: find_None_iff)
      with D P None show ?thesis
        by (simp add: comment_votes_unique_def comment_votes_vote_on_comment)
    next
      case E: (Some ev)
      show ?thesis
      proof (cases "cv_vote_type ev = t")
        case True
        with P E show ?thesis
          using distinct_map_filter[OF D]
          by (simp add: comment_votes_unique_def comment_votes_vote_on_comment)
      next
        case False
        with P E show ?thesis
          using D
          by (simp add: comment_votes_unique_def comment_votes_vote_on_comment comment_vote_key_retype
                del: map_map)
      qed
    qed
  qed
qed

lemma comment_ledger_SomeD:
  assumes "comment_ledger cid uid d = Some l"
  obtains comment a where
    "find (\<lambda>p. c_id p = cid \<and> \<not> c_is_deleted p) (comments d) = Some comment"
    "find (\<lambda>u. u_id u = c_author_id comment) (users d) = Some a"
    "l = (case find (\<lambda>v. cv_comment_id v = cid \<and> cv_user_id v = uid) (comment_votes d) of
            None \<Rightarrow> NoVote | Some v \<Rightarrow> state_of (cv_vote_type v),
          c_upvote_count comment, c_downvote_count comment, u_karma_score a)"
  using assms by (auto simp: comment_ledger_def split: option.splits)

lemma unique_comment_vote_removed:
  assumes D: "distinct (map (\<lambda>v. (cv_comment_id v, cv_user_id v)) vs)"
    and E: "find (\<lambda>v. cv_comment_id v = cid \<and> cv_user_id v = uid) vs = Some ev"
  shows "find (\<lambda>v. cv_comment_id v = cid \<and> cv_user_id v = uid)
           (filter (\<lambda>v. cv_id v \<noteq> cv_id ev) vs) = None"
proof -
  have ev: "ev \<in> set vs" "cv_comment_id ev = cid" "cv_user_id ev = uid"
    using find_SomeD[OF E] by auto
  have "v = ev" if "v \<in> set vs" "cv_comment_id v = cid" "cv_user_id v = uid" for v
    using D that ev by (auto simp: distinct_map inj_on_def)
  then show ?thesis
    by (auto simp: find_None_iff)
qed

lemma comment_vote_retyped:
  assumes E: "find (\<lambda>v. cv_comment_id v = cid \<and> cv_user_id v = uid) vs = Some ev"
  shows "find (\<lambda>v. cv_comment_id v = cid \<and> cv_user_id v = uid)
           (map (\<lambda>v. if cv_id v = cv_id ev then v\<lparr>cv_vote_type := t\<rparr> else v) vs)
         = Some (ev\<lparr>cv_vote_type := t\<rparr>)"
proof -
  have "find (\<lambda>v. cv_comment_id v = cid \<and> cv_user_id v = uid)
           (map (\<lambda>v. if cv_id v = cv_id ev then v\<lparr>cv_vote_type := t\<rparr> else v) vs)
      = map_option (\<lambda>v. if cv_id v = cv_id ev then v\<lparr>cv_vote_type := t\<rparr> else v)
          (find (\<lambda>v. cv_comment_id v = cid \<and> cv_user_id v = uid) vs)"
    by (rule find_map_pres) simp
  then show ?thesis by (simp add: E)
qed

lemma vote_on_comment_step:
  assumes L: "comment_ledger cid (u_id cu) d = Some l" and U: "comment_votes_unique d"
  shows "\<exists>d' rc' r. vote_on_comment cid t cu d rc = (d', rc', Inr r) \<and>
           comment_ledger cid (u_id cu) d' = Some (transition comment_weights t l)"
proof -
  from L obtain comment a where
    P: "find (\<lambda>p. c_id p = cid \<and> \<not> c_is_deleted p) (comments d) = Some comment" and
    A: "find (\<lambda>u. u_id u = c_author_id comment) (users d) = Some a" and
    l: "l = (case find (\<lambda>v. cv_comment_id v = cid \<and> cv_user_id v = u_id cu) (comment_votes d) of
            None \<Rightarrow> NoVote | Some v \<Rightarrow> state_of (cv_vote_type v),
          c_upvote_count comment, c_downvote_count comment, u_karma_score a)"
    by (rule comment_ledger_SomeD)
  have cid: "c_id comment = cid" "\<not> c_is_deleted comment" using find_SomeD[OF P] by auto
  have aid: "u_id a = c_author_id comment" using find_SomeD[OF A] by auto
  have D: "distinct (map (\<lambda>v. (cv_comment_id v, cv_user_id v)) (comment_votes d))"
    using U by (simp add: comment_votes_unique_def)
  show ?thesis
  proof (cases "find (\<lambda>v. cv_comment_id v = cid \<and> cv_user_id v = u_id cu) (comment_votes d)")
    case None
    show ?thesis
      unfolding vote_on_comment_create[OF P None]
      by (cases t)
         (simp_all add: comment_ledger_def find_comment_upd find_user_upd users_karma_add P A cid aid l
            None find_append_None comment_weights_def)
  next
    case E: (Some ev)
    show ?thesis
    proof (cases "cv_vote_type ev = t")
      case True
      show ?thesis
        unfolding vote_on_comment_toggle[OF P E True]
        using True
        by (cases t)
           (simp_all add: comment_ledger_def find_comment_upd find_user_upd users_karma_add P A cid aid l
              E unique_comment_vote_removed[OF D E] comment_weights_def)
    next
      case False
      show ?thesis
        unfolding vote_on_comment_change[OF P E False] karma_add_twice
        using False
        by (cases t; cases "cv_vote_type ev")
           (simp_all add: comment_ledger_def find_comment_upd find_user_upd users_karma_add P A cid aid l
              E comment_vote_retyped[OF E] comment_weights_def)
    qed
  qed
qed

lemma karma_add_upd_comment: "karma_add a n (upd_comment i f d) = upd_comment i f (karma_add a n d)"
  by (cases a) (simp_all add: karma_add_def upd_comment_def upd_user_def)

lemma upd_comment_undo:
  assumes "\<And>p. g (f p) = p" "\<And>p. c_id (f p) = c_id p"
  shows "upd_comment i g (upd_comment i f d) = d"
proof -
  have "map (\<lambda>p. if c_id p = i then g p else p) (map (\<lambda>p. if c_id p = i then f p else p) ps) = ps"
    for ps :: "Comment list"
    by (induction ps) (auto simp: assms)
  then show ?thesis
    by (simp add: upd_comment_def del: map_map)
qed

lemma toggle_off_comment:
  assumes P: "find (\<lambda>p. c_id p = cid \<and> \<not> c_is_deleted p) (comments d) = Some comment"
    and N: "find (\<lambda>v. cv_comment_id v = cid \<and> cv_user_id v = u_id cu) (comment_votes d) = None"
    and F: "\<forall>v \<in> set (comment_votes d). cv_id v \<noteq> next_comment_vote_id d"
  shows "\<exists>d1 rc1 r1 rc2.
           vote_on_comment cid t cu d rc = (d1, rc1, Inr r1) \<and>
           vote_on_comment cid t cu d1 rc1 =
             (d\<lparr>next_comment_vote_id := next_comment_vote_id d + 1\<rparr>, rc2,
              Inr (ReturnDict [(''message'', ''Vote removed''), (''action'', ''removed'')]))"
proof -
  define A where "A = find (\<lambda>u. u_id u = c_author_id comment) (users d)"
  define nv where "nv = \<lparr>cv_id = next_comment_vote_id d, cv_comment_id = cid, cv_user_id = u_id cu,
              cv_vote_type = t\<rparr>"
  define f :: "Comment \<Rightarrow> Comment" where "f = (\<lambda>p. if t = UPVOTE then p\<lparr>c_upvote_count := c_upvote_count p + 1\<rparr>
               else p\<lparr>c_downvote_count := c_downvote_count p + 1\<rparr>)"
  define g :: "Comment \<Rightarrow> Comment" where "g = (\<lambda>p. if t = UPVOTE then p\<lparr>c_upvote_count := c_upvote_count p - 1\<rparr>
               else p\<lparr>c_downvote_count := c_downvote_count p - 1\<rparr>)"
  define k :: int where "k = (if t = UPVOTE then 5 else - 1)"
  define k' :: int where "k' = (if t = UPVOTE then - 5 else 1)"
  define d0 where "d0 = d\<lparr>comment_votes := comment_votes d @ [nv],
              next_comment_vote_id := next_comment_vote_id d + 1\<rparr>"
  define d1 where "d1 = karma_add A k (upd_comment (c_id comment) f d0)"
  have cid: "c_id comment = cid" using find_SomeD[OF P] by simp
  have fid: "c_id (f p) = c_id p" "c_is_deleted (f p) = c_is_deleted p"
    "c_author_id (f p) = c_author_id p" "g (f p) = p" for p
    by (simp_all add: f_def g_def)
  have kk: "k + k' = 0" by (simp add: k_def k'_def)
  have first: "vote_on_comment cid t cu d rc =
      (d1, try_sweep (comment_vote_sweep (c_post_id comment) A) rc,
       Inr (ReturnVote \<lparr>vr_id = next_comment_vote_id d, vr_vote_type = t\<rparr>))"
    unfolding d1_def d0_def A_def nv_def f_def k_def
    by (rule vote_on_comment_create[OF P N])
  have P1: "find (\<lambda>p. c_id p = cid \<and> \<not> c_is_deleted p) (comments d1) = Some (f comment)"
    by (simp add: d1_def d0_def find_comment_upd fid P cid)
  have pv1: "comment_votes d1 = comment_votes d @ [nv]"
    by (simp add: d1_def d0_def)
  have E1: "find (\<lambda>v. cv_comment_id v = cid \<and> cv_user_id v = u_id cu) (comment_votes d1) = Some nv"
    by (simp add: pv1 find_append_None[OF N] nv_def)
  have T1: "cv_vote_type nv = t" by (simp add: nv_def)
  define A1 where "A1 = find (\<lambda>u. u_id u = c_author_id (f comment)) (users d1)"
  have A1: "map_option u_id A1 = map_option u_id A"
    unfolding A1_def d1_def A_def
    by (cases "find (\<lambda>u. u_id u = c_author_id comment) (users d)")
       (simp_all add: users_karma_add find_user_upd fid d0_def)
  have second: "vote_on_comment cid t cu d1 rc1 =
      ((karma_add A1 k' (upd_comment (c_id (f comment)) g d1))
          \<lparr>comment_votes := filter (\<lambda>v. cv_id v \<noteq> cv_id nv) (comment_votes d1)\<rparr>,
       try_sweep (comment_vote_sweep (c_post_id (f comment)) A1) rc1,
       Inr (ReturnDict [(''message'', ''Vote removed''), (''action'', ''removed'')]))" for rc1
    unfolding A1_def g_def k'_def
    by (rule vote_on_comment_toggle[OF P1 E1 T1])
  have undo: "karma_add A1 k' (upd_comment (c_id (f comment)) g d1) = d0"
  proof -
    have "karma_add A1 k' (upd_comment (c_id (f comment)) g d1)
        = karma_add A k' (upd_comment (c_id comment) g (karma_add A k (upd_comment (c_id comment) f d0)))"
      by (simp add: karma_add_cong_id[OF A1] fid d1_def)
    also have "\<dots> = karma_add A k' (karma_add A k (upd_comment (c_id comment) g (upd_comment (c_id comment) f d0)))"
      by (simp add: karma_add_upd_comment)
    also have "\<dots> = upd_comment (c_id comment) g (upd_comment (c_id comment) f d0)"
      by (rule karma_add_undo[OF kk])
    also have "\<dots> = d0"
      by (rule upd_comment_undo) (simp_all add: fid)
    finally show ?thesis .
  qed
  have flt: "filter (\<lambda>v. cv_id v \<noteq> cv_id nv) (comment_votes d1) = comment_votes d"
    using F by (simp add: pv1 nv_def filter_id_conv)
  have rest: "d0\<lparr>comment_votes := comment_votes d\<rparr> = d\<lparr>next_comment_vote_id := next_comment_vote_id d + 1\<rparr>"
    by (simp add: d0_def)
  show ?thesis
    using first second[unfolded undo flt rest] by blast
qed

section \<open>Cache failures and the write\<close>

text \<open>
  C7. Whatever the cache client is (a Redis client with any schedule of faults, or the
  mock client without \<open>delete\<close> and \<open>scan_iter\<close>), every write handler leaves the store
  and returns the response it leaves and returns with a healthy cache: a failure in the
  invalidation sweep neither fails the request nor changes what was committed.
\<close>

theorem cache_failure_never_affects_write:
  "fst (vote_on_post i t u d rc) = fst (vote_on_post i t u d (Redis es [])) \<and>
   snd (snd (vote_on_post i t u d rc)) = snd (snd (vote_on_post i t u d (Redis es []))) \<and>
   fst (vote_on_comment i t u d rc) = fst (vote_on_comment i t u d (Redis es [])) \<and>
   snd (snd (vote_on_comment i t u d rc)) = snd (snd (vote_on_comment i t u d (Redis es []))) \<and>
   fst (accept_answer i j u d rc) = fst (accept_answer i j u d (Redis es [])) \<and>
   snd (snd (accept_answer i j u d rc)) = snd (snd (accept_answer i j u d (Redis es []))) \<and>
   fst (create_comment ppc i cc u d rc) = fst (create_comment ppc i cc u d (Redis es [])) \<and>
   snd (snd (create_comment ppc i cc u d rc)) =
     snd (snd (create_comment ppc i cc u d (Redis es []))) \<and>
   fst (update_profile pd u d rc) = fst (update_profile pd u d (Redis es [])) \<and>
   snd (snd (update_profile pd u d rc)) = snd (snd (update_profile pd u d (Redis es []))) \<and>
   fst (register_user h ud d rc) = fst (register_user h ud d (Redis es [])) \<and>
   snd (snd (register_user h ud d rc)) = snd (snd (register_user h ud d (Redis es [])))"
proof -
  have 1: "fst (vote_on_post i t u d rc) = fst (vote_on_post i t u d (Redis es [])) \<and>
      snd (snd (vote_on_post i t u d rc)) = snd (snd (vote_on_post i t u d (Redis es [])))"
    by (simp add: vote_on_post_def Let_def split: option.splits)
  have 2: "fst (vote_on_comment i t u d rc) = fst (vote_on_comment i t u d (Redis es [])) \<and>
      snd (snd (vote_on_comment i t u d rc)) =
        snd (snd (vote_on_comment i t u d (Redis es [])))"
    by (simp add: vote_on_comment_def Let_def split: option.splits)
  have 3: "fst (accept_answer i j u d rc) = fst (accept_answer i j u d (Redis es [])) \<and>
      snd (snd (accept_answer i j u d rc)) = snd (snd (accept_answer i j u d (Redis es [])))"
    by (simp add: accept_answer_def Let_def split: option.splits)
  have 4: "fst (create_comment ppc i cc u d rc) =
        fst (create_comment ppc i cc u d (Redis es [])) \<and>
      snd (snd (create_comment ppc i cc u d rc)) =
        snd (snd (create_comment ppc i cc u d (Redis es [])))"
    by (simp add: create_comment_def Let_def split: option.splits)
  have 5: "fst (update_profile pd u d rc) = fst (update_profile pd u d (Redis es [])) \<and>
      snd (snd (update_profile pd u d rc)) = snd (snd (update_profile pd u d (Redis es [])))"
    by (simp add: update_profile_def Let_def split: option.splits)
  have 6: "fst (register_user h ud d rc) = fst (register_user h ud d (Redis es [])) \<and>
      snd (snd (register_user h ud d rc)) = snd (snd (register_user h ud d (Redis es [])))"
    by (simp add: register_user_def Let_def split: option.splits)
  from 1 2 3 4 5 6 show ?thesis by blast
qed

section \<open>Sequences of votes replay the state machine\<close>

lemma votes_on_post_replay:
  "post_ledger pid (u_id cu) d = Some l \<Longrightarrow> post_votes_unique d \<Longrightarrow>
   \<exists>d' rc'. votes_on_post pid cu ts d rc = Some (d', rc') \<and>
     post_ledger pid (u_id cu) d' = Some (replay post_weights ts l) \<and> post_votes_unique d'"
proof (induction ts arbitrary: d rc l)
  case Nil
  then show ?case by (simp add: replay_def)
next
  case (Cons t ts)
  from vote_on_post_step[OF Cons.prems, of t rc]
  obtain d1 rc1 r where s: "vote_on_post pid t cu d rc = (d1, rc1, Inr r)"
    and l1: "post_ledger pid (u_id cu) d1 = Some (transition post_weights t l)"
    by blast
  have u1: "post_votes_unique d1"
    using post_votes_unique_vote_on_post[OF Cons.prems(2), of pid t cu rc] s by simp
  from Cons.IH[OF l1 u1, of rc1] show ?case
    by (simp add: s replay_def)
qed

lemma votes_on_comment_replay:
  "comment_ledger cid (u_id cu) d = Some l \<Longrightarrow> comment_votes_unique d \<Longrightarrow>
   \<exists>d' rc'. votes_on_comment cid cu ts d rc = Some (d', rc') \<and>
     comment_ledger cid (u_id cu) d' = Some (replay comment_weights ts l) \<and>
     comment_votes_unique d'"
proof (induction ts arbitrary: d rc l)
  case Nil
  then show ?case by (simp add: replay_def)
next
  case (Cons t ts)
  from vote_on_comment_step[OF Cons.prems, of t rc]
  obtain d1 rc1 r where s: "vote_on_comment cid t cu d rc = (d1, rc1, Inr r)"
    and l1: "comment_ledger cid (u_id cu) d1 = Some (transition comment_weights t l)"
    by blast
  have u1: "comment_votes_unique d1"
    using comment_votes_unique_vote_on_comment[OF Cons.prems(2), of cid t cu rc] s by simp
  from Cons.IH[OF l1 u1, of rc1] show ?case
    by (simp add: s replay_def)
qed

lemmas sample_defs = store0_def mk_post_def mk_comment_def mk_user_def alice_def bob_def
  carol_def dave_def

text \<open>
  Claim C1, for the targets the handlers accept. For a user, a post or a comment that
  is in the store and not soft-deleted, with its author, and any finite sequence of vote
  requests of that user on that target, starting from a store with at most one vote row
  per user and target: every request succeeds, and the vote
  state, the target's \<open>upvote_count\<close> and \<open>downvote_count\<close> and the author's
  \<open>karma_score\<close> at the end are those of replaying the state machine of \<section>4.1
  from the initial ones, with weights +10/-2 for posts and +5/-1 for comments.
\<close>

theorem vote_sequence_replay:
  "(post_ledger post_id (u_id current_user) d = Some l \<and> post_votes_unique d \<longrightarrow>
      (\<exists>d' rc'. votes_on_post post_id current_user ts d rc = Some (d', rc') \<and>
         post_ledger post_id (u_id current_user) d' = Some (replay post_weights ts l))) \<and>
   (comment_ledger comment_id (u_id current_user) d = Some l' \<and> comment_votes_unique d \<longrightarrow>
      (\<exists>d' rc'. votes_on_comment comment_id current_user ts d rc = Some (d', rc') \<and>
         comment_ledger comment_id (u_id current_user) d' =
           Some (replay comment_weights ts l')))"
  using votes_on_post_replay[of post_id current_user d l ts rc]
    votes_on_comment_replay[of comment_id current_user d l' ts rc]
  by blast

theorem vote_sequence_replay_witness:
  "post_ledger 1 (u_id bob) store0 = Some (NoVote, 0, 0, 0) \<and> post_votes_unique store0 \<and>
   (\<exists>d' rc'. votes_on_post 1 bob [UPVOTE, DOWNVOTE, DOWNVOTE, UPVOTE] store0 (Redis [] []) =
        Some (d', rc') \<and>
      post_ledger 1 (u_id bob) d' = Some (Upvoted, 1, 0, 10)) \<and>
   comment_ledger 1 (u_id bob) store0 = Some (NoVote, 0, 0, 0) \<and> comment_votes_unique store0 \<and>
   (\<exists>d' rc'. votes_on_comment 1 bob [UPVOTE, DOWNVOTE, DOWNVOTE, UPVOTE] store0 (Redis [] []) =
        Some (d', rc') \<and>
      comment_ledger 1 (u_id bob) d' = Some (Upvoted, 1, 0, 5))"
proof -
  have h: "post_ledger 1 (u_id bob) store0 = Some (NoVote, 0, 0, 0)" "post_votes_unique store0"
    "comment_ledger 1 (u_id bob) store0 = Some (NoVote, 0, 0, 0)" "comment_votes_unique store0"
    by (simp_all add: post_ledger_def comment_ledger_def post_votes_unique_def
        comment_votes_unique_def sample_defs)
  have r: "replay post_weights [UPVOTE, DOWNVOTE, DOWNVOTE, UPVOTE] (NoVote, 0, 0, 0)
      = (Upvoted, 1, 0, 10)"
    "replay comment_weights [UPVOTE, DOWNVOTE, DOWNVOTE, UPVOTE] (NoVote, 0, 0, 0)
      = (Upvoted, 1, 0, 5)"
    by (simp_all add: replay_def post_weights_def comment_weights_def)
  show ?thesis
    using vote_sequence_replay[of 1 bob store0 "(NoVote, 0, 0, 0)"
        "[UPVOTE, DOWNVOTE, DOWNVOTE, UPVOTE]" "Redis [] []" 1 "(NoVote, 0, 0, 0)"] h
    unfolding r by blast
qed

section \<open>Toggle-off idempotence\<close>

text \<open>
  Claim C4. From a state where the user has no vote on the target, submitting the same
  vote type twice in a row succeeds both times and gives back the store it started from,
  up to the consumed primary key: the vote row is deleted, and the target's
  \<open>upvote_count\<close> and \<open>downvote_count\<close> and the author's \<open>karma_score\<close> are at
  their values from before the first vote. For posts and for comments.
\<close>

theorem toggle_off_idempotent:
  "(find (\<lambda>p. p_id p = post_id \<and> \<not> p_is_deleted p) (posts d) = Some post \<and>
    find (\<lambda>v. pv_post_id v = post_id \<and> pv_user_id v = u_id current_user) (post_votes d) = None \<and>
    (\<forall>v \<in> set (post_votes d). pv_id v \<noteq> next_post_vote_id d) \<longrightarrow>
      (\<exists>d1 rc1 r1 rc2 r2.
         vote_on_post post_id t current_user d rc = (d1, rc1, Inr r1) \<and>
         vote_on_post post_id t current_user d1 rc1 =
           (d\<lparr>next_post_vote_id := next_post_vote_id d + 1\<rparr>, rc2, Inr r2))) \<and>
   (find (\<lambda>c. c_id c = comment_id \<and> \<not> c_is_deleted c) (comments d) = Some comment \<and>
    find (\<lambda>v. cv_comment_id v = comment_id \<and> cv_user_id v = u_id current_user)
      (comment_votes d) = None \<and>
    (\<forall>v \<in> set (comment_votes d). cv_id v \<noteq> next_comment_vote_id d) \<longrightarrow>
      (\<exists>d1 rc1 r1 rc2 r2.
         vote_on_comment comment_id t current_user d rc = (d1, rc1, Inr r1) \<and>
         vote_on_comment comment_id t current_user d1 rc1 =
           (d\<lparr>next_comment_vote_id := next_comment_vote_id d + 1\<rparr>, rc2, Inr r2)))"
  using toggle_off_post[of post_id d post current_user t rc]
    toggle_off_comment[of comment_id d comment current_user t rc]
  by blast

theorem toggle_off_idempotent_witness:
  "find (\<lambda>p. p_id p = 1 \<and> \<not> p_is_deleted p) (posts store0) = Some (mk_post 1 QUESTION 1 False False) \<and>
   find (\<lambda>v. pv_post_id v = 1 \<and> pv_user_id v = u_id bob) (post_votes store0) = None \<and>
   list_all (\<lambda>v. pv_id v \<noteq> next_post_vote_id store0) (post_votes store0) \<and>
   (\<exists>d1 rc1 r1 rc2 r2.
      vote_on_post 1 DOWNVOTE bob store0 (Redis [] []) = (d1, rc1, Inr r1) \<and>
      vote_on_post 1 DOWNVOTE bob d1 rc1 = (store0\<lparr>next_post_vote_id := 2\<rparr>, rc2, Inr r2)) \<and>
   find (\<lambda>c. c_id c = 2 \<and> \<not> c_is_deleted c) (comments store0) = Some (mk_comment 2 1 4) \<and>
   find (\<lambda>v. cv_comment_id v = 2 \<and> cv_user_id v = u_id bob) (comment_votes store0) = None \<and>
   list_all (\<lambda>v. cv_id v \<noteq> next_comment_vote_id store0) (comment_votes store0) \<and>
   (\<exists>d1 rc1 r1 rc2 r2.
      vote_on_comment 2 DOWNVOTE bob store0 (Redis [] []) = (d1, rc1, Inr r1) \<and>
      vote_on_comment 2 DOWNVOTE bob d1 rc1 =
        (store0\<lparr>next_comment_vote_id := 2\<rparr>, rc2, Inr r2))"
proof -
  have h: "find (\<lambda>p. p_id p = 1 \<and> \<not> p_is_deleted p) (posts store0) = Some (mk_post 1 QUESTION 1 False False)"
    "find (\<lambda>v. pv_post_id v = 1 \<and> pv_user_id v = u_id bob) (post_votes store0) = None"
    "find (\<lambda>c. c_id c = 2 \<and> \<not> c_is_deleted c) (comments store0) = Some (mk_comment 2 1 4)"
    "find (\<lambda>v. cv_comment_id v = 2 \<and> cv_user_id v = u_id bob) (comment_votes store0) = None"
    "post_votes store0 = []" "comment_votes store0 = []"
    "next_post_vote_id store0 + 1 = 2" "next_comment_vote_id store0 + 1 = 2"
    by (simp_all add: sample_defs)
  show ?thesis
    using toggle_off_idempotent[of 1 store0 "mk_post 1 QUESTION 1 False False" bob
        DOWNVOTE "Redis [] []" 2 "mk_comment 2 1 4"] h
    by simp
qed

section \<open>A vote on a soft-deleted post\<close>

text \<open>
  The replay of claim C1 does not hold for every target. Post 2 of the sample store is
  soft-deleted: Bob's upvote on it is answered with 404 and nothing is written, so the
  post's counters stay at (0, 0) and its author's karma at 0, where the state machine
  of \<section>4.1 gives one upvote and karma 10.
\<close>

theorem vote_on_deleted_post_not_replayed:
  "vote_on_post 2 UPVOTE bob store0 (Redis [] []) =
     (store0, Redis [] [], Inl (HTTPException 404 ''Post not found'')) \<and>
   votes_on_post 2 bob [UPVOTE] store0 (Redis [] []) = None \<and>
   map (\<lambda>p. (p_author_id p, p_is_deleted p, p_upvote_count p, p_downvote_count p))
     (filter (\<lambda>p. p_id p = 2) (posts store0)) = [(1, True, 0, 0)] \<and>
   karma_of 1 store0 = Some 0 \<and>
   replay post_weights [UPVOTE] (NoVote, 0, 0, 0) = (Upvoted, 1, 0, 10)"
  by (simp add: vote_on_post_def karma_of_def replay_def post_weights_def sample_defs)

section \<open>The response of a toggle-off\<close>

lemma store1_is_reached:
  "fst (vote_on_comment 1 UPVOTE bob (fst (vote_on_post 1 UPVOTE bob store0 rc)) rc') = store1"
  by (simp add: vote_on_post_def vote_on_comment_def store1_def sample_defs karma_add_def
      upd_post_def upd_comment_def upd_user_def)

text \<open>
  Claim C9. The handlers return the dict \<^verbatim>\<open>{"message": "Vote removed", "action": "removed"}\<close>
  for a toggle-off, under routes declared with \<open>response_model=VoteResponse\<close>: whenever
  the user's vote row on the target has the submitted type, the row is deleted and the
  store committed, and the endpoint answers with status 500 instead of a removed
  indicator. For posts and for comments.
\<close>

theorem toggle_off_response_is_error:
  "(find (\<lambda>p. p_id p = post_id \<and> \<not> p_is_deleted p) (posts d) = Some post \<and>
    find (\<lambda>v. pv_post_id v = post_id \<and> pv_user_id v = u_id current_user) (post_votes d) =
      Some ev \<and>
    pv_vote_type ev = t \<longrightarrow>
      (\<exists>d' rc'. post_vote_endpoint post_id t current_user d rc =
           (d', rc', Inl (HTTPException 500 ''Internal Server Error'')) \<and>
         post_votes d' = filter (\<lambda>v. pv_id v \<noteq> pv_id ev) (post_votes d))) \<and>
   (find (\<lambda>c. c_id c = comment_id \<and> \<not> c_is_deleted c) (comments d) = Some comment \<and>
    find (\<lambda>v. cv_comment_id v = comment_id \<and> cv_user_id v = u_id current_user)
      (comment_votes d) = Some ev' \<and>
    cv_vote_type ev' = t \<longrightarrow>
      (\<exists>d' rc'. comment_vote_endpoint comment_id t current_user d rc =
           (d', rc', Inl (HTTPException 500 ''Internal Server Error'')) \<and>
         comment_votes d' = filter (\<lambda>v. cv_id v \<noteq> cv_id ev') (comment_votes d)))"
proof (intro conjI impI; elim conjE)
  assume "find (\<lambda>p. p_id p = post_id \<and> \<not> p_is_deleted p) (posts d) = Some post"
    "find (\<lambda>v. pv_post_id v = post_id \<and> pv_user_id v = u_id current_user) (post_votes d) =
      Some ev" "pv_vote_type ev = t"
  from vote_on_post_toggle[OF this, of rc]
  show "\<exists>d' rc'. post_vote_endpoint post_id t current_user d rc =
           (d', rc', Inl (HTTPException 500 ''Internal Server Error'')) \<and>
         post_votes d' = filter (\<lambda>v. pv_id v \<noteq> pv_id ev) (post_votes d)"
    by (simp add: post_vote_endpoint_def route_def VoteResponse_required_def)
next
  assume "find (\<lambda>c. c_id c = comment_id \<and> \<not> c_is_deleted c) (comments d) = Some comment"
    "find (\<lambda>v. cv_comment_id v = comment_id \<and> cv_user_id v = u_id current_user)
      (comment_votes d) = Some ev'" "cv_vote_type ev' = t"
  from vote_on_comment_toggle[OF this, of rc]
  show "\<exists>d' rc'. comment_vote_endpoint comment_id t current_user d rc =
           (d', rc', Inl (HTTPException 500 ''Internal Server Error'')) \<and>
         comment_votes d' = filter (\<lambda>v. cv_id v \<noteq> cv_id ev') (comment_votes d)"
    by (simp add: comment_vote_endpoint_def route_def VoteResponse_required_def)
qed

theorem toggle_off_response_is_error_witness:
  "find (\<lambda>p. p_id p = 1 \<and> \<not> p_is_deleted p) (posts store1) =
     Some ((mk_post 1 QUESTION 1 False False)\<lparr>p_upvote_count := 1\<rparr>) \<and>
   find (\<lambda>v. pv_post_id v = 1 \<and> pv_user_id v = u_id bob) (post_votes store1) =
     Some \<lparr>pv_id = 1, pv_post_id = 1, pv_user_id = 2, pv_vote_type = UPVOTE\<rparr> \<and>
   (\<exists>d' rc'. post_vote_endpoint 1 UPVOTE bob store1 (Redis [] []) =
        (d', rc', Inl (HTTPException 500 ''Internal Server Error'')) \<and>
      post_votes d' = []) \<and>
   find (\<lambda>c. c_id c = 1 \<and> \<not> c_is_deleted c) (comments store1) =
     Some ((mk_comment 1 1 3)\<lparr>c_upvote_count := 1\<rparr>) \<and>
   find (\<lambda>v. cv_comment_id v = 1 \<and> cv_user_id v = u_id bob) (comment_votes store1) =
     Some \<lparr>cv_id = 1, cv_comment_id = 1, cv_user_id = 2, cv_vote_type = UPVOTE\<rparr> \<and>
   (\<exists>d' rc'. comment_vote_endpoint 1 UPVOTE bob store1 (Redis [] []) =
        (d', rc', Inl (HTTPException 500 ''Internal Server Error'')) \<and>
      comment_votes d' = [])"
proof -
  have h: "find (\<lambda>p. p_id p = 1 \<and> \<not> p_is_deleted p) (posts store1) =
     Some ((mk_post 1 QUESTION 1 False False)\<lparr>p_upvote_count := 1\<rparr>)"
    "find (\<lambda>v. pv_post_id v = 1 \<and> pv_user_id v = u_id bob) (post_votes store1) =
     Some \<lparr>pv_id = 1, pv_post_id = 1, pv_user_id = 2, pv_vote_type = UPVOTE\<rparr>"
    "find (\<lambda>c. c_id c = 1 \<and> \<not> c_is_deleted c) (comments store1) =
     Some ((mk_comment 1 1 3)\<lparr>c_upvote_count := 1\<rparr>)"
    "find (\<lambda>v. cv_comment_id v = 1 \<and> cv_user_id v = u_id bob) (comment_votes store1) =
     Some \<lparr>cv_id = 1, cv_comment_id = 1, cv_user_id = 2, cv_vote_type = UPVOTE\<rparr>"
    "post_votes store1 = [\<lparr>pv_id = 1, pv_post_id = 1, pv_user_id = 2, pv_vote_type = UPVOTE\<rparr>]"
    "comment_votes store1 =
       [\<lparr>cv_id = 1, cv_comment_id = 1, cv_user_id = 2, cv_vote_type = UPVOTE\<rparr>]"
    by (simp_all add: store1_def sample_defs)
  show ?thesis
    using toggle_off_response_is_error[of 1 store1
        "(mk_post 1 QUESTION 1 False False)\<lparr>p_upvote_count := 1\<rparr>" bob
        "\<lparr>pv_id = 1, pv_post_id = 1, pv_user_id = 2, pv_vote_type = UPVOTE\<rparr>" UPVOTE
        "Redis [] []" 1 "(mk_comment 1 1 3)\<lparr>c_upvote_count := 1\<rparr>"
        "\<lparr>cv_id = 1, cv_comment_id = 1, cv_user_id = 2, cv_vote_type = UPVOTE\<rparr>"] h
    by simp
qed

section \<open>Error conditions\<close>

text \<open>
  A vote on a soft-deleted target is not permitted: Carol's downvote on the soft-deleted
  post 2 of the sample store is answered with 404 and the store is unchanged. This is
  against the first part of claim C8.
\<close>

theorem vote_on_deleted_post_is_not_found:
  "map (\<lambda>p. (p_id p, p_is_deleted p)) (filter (\<lambda>p. p_id p = 2) (posts store0)) = [(2, True)] \<and>
   vote_on_post 2 DOWNVOTE carol store0 MockRedisClient =
     (store0, MockRedisClient, Inl (HTTPException 404 ''Post not found'')) \<and>
   post_vote_endpoint 2 DOWNVOTE carol store0 MockRedisClient =
     (store0, MockRedisClient, Inl (HTTPException 404 ''Post not found''))"
  by (simp add: vote_on_post_def post_vote_endpoint_def route_def sample_defs)

text \<open>
  Claim C8, with the votes on soft-deleted targets put right and the order of the checks
  of the accept path made explicit. A vote on a locked post is permitted and counted as
  on any other post. A vote on a post or comment that is missing or soft-deleted is
  answered with 404 and writes nothing. A comment on a locked post is rejected with 403.
  In the accept path: a missing or soft-deleted post gives 404; otherwise a requester
  who is not the post's author gives 403; otherwise a post that is not a question gives
  400; otherwise a comment that is missing, soft-deleted or of another post gives 404.
  Every rejected request leaves store and cache as they were.
\<close>

theorem error_conditions:
  "(find (\<lambda>p. p_id p = pid1 \<and> \<not> p_is_deleted p) (posts d) = Some post1 \<and> p_is_locked post1 \<and>
    post_ledger pid1 (u_id u1) d = Some l \<and> post_votes_unique d \<longrightarrow>
      (\<exists>d' rc' r. vote_on_post pid1 t u1 d rc = (d', rc', Inr r) \<and>
         post_ledger pid1 (u_id u1) d' = Some (transition post_weights t l))) \<and>
   (find (\<lambda>p. p_id p = pid2 \<and> \<not> p_is_deleted p) (posts d) = None \<longrightarrow>
      vote_on_post pid2 t u2 d rc = (d, rc, Inl (HTTPException 404 ''Post not found''))) \<and>
   (find (\<lambda>c. c_id c = cid3 \<and> \<not> c_is_deleted c) (comments d) = None \<longrightarrow>
      vote_on_comment cid3 t u3 d rc = (d, rc, Inl (HTTPException 404 ''Comment not found''))) \<and>
   (find (\<lambda>p. p_id p = pid4 \<and> \<not> p_is_deleted p) (posts d) = Some post4 \<and> p_is_locked post4 \<longrightarrow>
      create_comment process_post_content pid4 comment_data u4 d rc =
        (d, rc, Inl (HTTPException 403 ''Post is locked for comments''))) \<and>
   (find (\<lambda>p. p_id p = pid5 \<and> \<not> p_is_deleted p) (posts d) = None \<longrightarrow>
      accept_answer pid5 cid5 u5 d rc = (d, rc, Inl (HTTPException 404 ''Post not found''))) \<and>
   (find (\<lambda>p. p_id p = pid6 \<and> \<not> p_is_deleted p) (posts d) = Some post6 \<and>
    p_author_id post6 \<noteq> u_id u6 \<longrightarrow>
      accept_answer pid6 cid6 u6 d rc =
        (d, rc, Inl (HTTPException 403 ''Only the post author can accept answers''))) \<and>
   (find (\<lambda>p. p_id p = pid7 \<and> \<not> p_is_deleted p) (posts d) = Some post7 \<and>
    p_author_id post7 = u_id u7 \<and> p_post_type post7 \<noteq> QUESTION \<longrightarrow>
      accept_answer pid7 cid7 u7 d rc =
        (d, rc, Inl (HTTPException 400 ''Only questions can have accepted answers''))) \<and>
   (find (\<lambda>p. p_id p = pid8 \<and> \<not> p_is_deleted p) (posts d) = Some post8 \<and>
    p_author_id post8 = u_id u8 \<and> p_post_type post8 = QUESTION \<and>
    find (\<lambda>c. c_id c = cid8 \<and> c_post_id c = pid8 \<and> \<not> c_is_deleted c) (comments d) = None \<longrightarrow>
      accept_answer pid8 cid8 u8 d rc =
        (d, rc, Inl (HTTPException 404 ''Comment not found'')))"
proof (intro conjI impI; (elim conjE)?)
  assume "post_ledger pid1 (u_id u1) d = Some l" "post_votes_unique d"
  from vote_on_post_step[OF this, of t rc]
  show "\<exists>d' rc' r. vote_on_post pid1 t u1 d rc = (d', rc', Inr r) \<and>
         post_ledger pid1 (u_id u1) d' = Some (transition post_weights t l)" .
qed (simp_all add: vote_on_post_def vote_on_comment_def create_comment_def accept_answer_def)

theorem error_conditions_witness:
  "find (\<lambda>p. p_id p = 3 \<and> \<not> p_is_deleted p) (posts store0) = Some (mk_post 3 QUESTION 1 True False) \<and>
   p_is_locked (mk_post 3 QUESTION 1 True False) \<and>
   post_ledger 3 (u_id bob) store0 = Some (NoVote, 0, 0, 0) \<and> post_votes_unique store0 \<and>
   (\<exists>d' rc' r. vote_on_post 3 UPVOTE bob store0 (Redis [] []) = (d', rc', Inr r) \<and>
      post_ledger 3 (u_id bob) d' = Some (Upvoted, 1, 0, 10)) \<and>
   find (\<lambda>p. p_id p = 2 \<and> \<not> p_is_deleted p) (posts store0) = None \<and>
   vote_on_post 2 UPVOTE carol store0 (Redis [] []) =
     (store0, Redis [] [], Inl (HTTPException 404 ''Post not found'')) \<and>
   find (\<lambda>c. c_id c = 7 \<and> \<not> c_is_deleted c) (comments store0) = None \<and>
   vote_on_comment 7 UPVOTE dave store0 (Redis [] []) =
     (store0, Redis [] [], Inl (HTTPException 404 ''Comment not found'')) \<and>
   create_comment (\<lambda>s. (s, \<lparr>plain_text = s, has_code = False, has_images = False\<rparr>)) 3
       \<lparr>cc_content = ''hello'', cc_parent_id = None, cc_is_answer = True\<rparr> bob store0
       (Redis [] []) =
     (store0, Redis [] [], Inl (HTTPException 403 ''Post is locked for comments'')) \<and>
   accept_answer 2 1 alice store0 (Redis [] []) =
     (store0, Redis [] [], Inl (HTTPException 404 ''Post not found'')) \<and>
   find (\<lambda>p. p_id p = 1 \<and> \<not> p_is_deleted p) (posts store0) = Some (mk_post 1 QUESTION 1 False False) \<and>
   p_author_id (mk_post 1 QUESTION 1 False False) \<noteq> u_id bob \<and>
   accept_answer 1 1 bob store0 (Redis [] []) =
     (store0, Redis [] [], Inl (HTTPException 403 ''Only the post author can accept answers'')) \<and>
   find (\<lambda>p. p_id p = 4 \<and> \<not> p_is_deleted p) (posts store0) = Some (mk_post 4 DISCUSSION 1 False False) \<and>
   p_author_id (mk_post 4 DISCUSSION 1 False False) = u_id alice \<and>
   p_post_type (mk_post 4 DISCUSSION 1 False False) \<noteq> QUESTION \<and>
   accept_answer 4 1 alice store0 (Redis [] []) =
     (store0, Redis [] [], Inl (HTTPException 400 ''Only questions can have accepted answers'')) \<and>
   p_author_id (mk_post 1 QUESTION 1 False False) = u_id alice \<and>
   p_post_type (mk_post 1 QUESTION 1 False False) = QUESTION \<and>
   find (\<lambda>c. c_id c = 7 \<and> c_post_id c = 1 \<and> \<not> c_is_deleted c) (comments store0) = None \<and>
   accept_answer 1 7 alice store0 (Redis [] []) =
     (store0, Redis [] [], Inl (HTTPException 404 ''Comment not found''))"
proof -
  have h: "find (\<lambda>p. p_id p = 3 \<and> \<not> p_is_deleted p) (posts store0) = Some (mk_post 3 QUESTION 1 True False)"
    "p_is_locked (mk_post 3 QUESTION 1 True False)"
    "post_ledger 3 (u_id bob) store0 = Some (NoVote, 0, 0, 0)" "post_votes_unique store0"
    "find (\<lambda>p. p_id p = 2 \<and> \<not> p_is_deleted p) (posts store0) = None"
    "find (\<lambda>c. c_id c = 7 \<and> \<not> c_is_deleted c) (comments store0) = None"
    "find (\<lambda>p. p_id p = 1 \<and> \<not> p_is_deleted p) (posts store0) = Some (mk_post 1 QUESTION 1 False False)"
    "p_author_id (mk_post 1 QUESTION 1 False False) \<noteq> u_id bob"
    "find (\<lambda>p. p_id p = 4 \<and> \<not> p_is_deleted p) (posts store0) = Some (mk_post 4 DISCUSSION 1 False False)"
    "p_author_id (mk_post 4 DISCUSSION 1 False False) = u_id alice"
    "p_post_type (mk_post 4 DISCUSSION 1 False False) \<noteq> QUESTION"
    "p_author_id (mk_post 1 QUESTION 1 False False) = u_id alice"
    "p_post_type (mk_post 1 QUESTION 1 False False) = QUESTION"
    "find (\<lambda>c. c_id c = 7 \<and> c_post_id c = 1 \<and> \<not> c_is_deleted c) (comments store0) = None"
    by (simp_all add: post_ledger_def post_votes_unique_def sample_defs)
  have r: "transition post_weights UPVOTE (NoVote, 0, 0, 0) = (Upvoted, 1, 0, 10)"
    by (simp add: post_weights_def)
  show ?thesis
    using error_conditions[where d = store0 and rc = "Redis [] []" and t = UPVOTE
        and ?pid1.0 = 3 and ?post1.0 = "mk_post 3 QUESTION 1 True False" and ?u1.0 = bob
        and l = "(NoVote, 0, 0, 0)"
        and ?pid2.0 = 2 and ?u2.0 = carol
        and ?cid3.0 = 7 and ?u3.0 = dave
        and ?pid4.0 = 3 and ?post4.0 = "mk_post 3 QUESTION 1 True False" and ?u4.0 = bob
        and process_post_content = "\<lambda>s. (s, \<lparr>plain_text = s, has_code = False, has_images = False\<rparr>)"
        and comment_data = "\<lparr>cc_content = ''hello'', cc_parent_id = None, cc_is_answer = True\<rparr>"
        and ?pid5.0 = 2 and ?cid5.0 = 1 and ?u5.0 = alice
        and ?pid6.0 = 1 and ?post6.0 = "mk_post 1 QUESTION 1 False False" and ?cid6.0 = 1
        and ?u6.0 = bob
        and ?pid7.0 = 4 and ?post7.0 = "mk_post 4 DISCUSSION 1 False False" and ?cid7.0 = 1
        and ?u7.0 = alice
        and ?pid8.0 = 1 and ?post8.0 = "mk_post 1 QUESTION 1 False False" and ?cid8.0 = 7
        and ?u8.0 = alice] h
    unfolding r by simp
qed

section \<open>At most one vote row per user and target, at all times\<close>

lemma unaccept_previous_votes [simp]:
  "post_votes (unaccept_previous post d) = post_votes d"
  "comment_votes (unaccept_previous post d) = comment_votes d"
  by (simp_all add: unaccept_previous_def Let_def split: option.splits)

lemma vote_tables_frame:
  "comment_votes (fst (vote_on_post pid t cu d rc)) = comment_votes d"
  "post_votes (fst (vote_on_comment cid t cu d rc)) = post_votes d"
  "post_votes (fst (accept_answer pid cid cu d rc)) = post_votes d"
  "comment_votes (fst (accept_answer pid cid cu d rc)) = comment_votes d"
  "post_votes (fst (create_comment ppc pid cc cu d rc)) = post_votes d"
  "comment_votes (fst (create_comment ppc pid cc cu d rc)) = comment_votes d"
  by (simp_all add: vote_on_post_def vote_on_comment_def accept_answer_def create_comment_def
      Let_def split: option.splits)

lemma serve_votes_unique:
  assumes "post_votes_unique (fst s)" "comment_votes_unique (fst s)"
  shows "post_votes_unique (fst (serve ppc r s)) \<and> comment_votes_unique (fst (serve ppc r s))"
proof (cases s)
  case (Pair d rc)
  with assms have u: "post_votes_unique d" "comment_votes_unique d" by simp_all
  have pc: "post_votes d' = post_votes d \<Longrightarrow> post_votes_unique d'"
    "comment_votes d' = comment_votes d \<Longrightarrow> comment_votes_unique d'" for d'
    using u by (simp_all add: post_votes_unique_def comment_votes_unique_def)
  show ?thesis
  proof (cases r)
    case (VoteOnPost i t u)
    then show ?thesis
      using post_votes_unique_vote_on_post[OF u(1), of i t u rc]
        pc(2)[OF vote_tables_frame(1), of i t u rc]
      by (simp add: Pair case_prod_beta)
  next
    case (VoteOnComment i t u)
    then show ?thesis
      using comment_votes_unique_vote_on_comment[OF u(2), of i t u rc]
        pc(1)[OF vote_tables_frame(2), of i t u rc]
      by (simp add: Pair case_prod_beta)
  next
    case (AcceptAnswer i j u)
    then show ?thesis
      using pc(1)[OF vote_tables_frame(3), of i j u rc] pc(2)[OF vote_tables_frame(4), of i j u rc]
      by (simp add: Pair case_prod_beta)
  next
    case (CreateComment i cc u)
    then show ?thesis
      using pc(1)[OF vote_tables_frame(5), of ppc i cc u rc]
        pc(2)[OF vote_tables_frame(6), of ppc i cc u rc]
      by (simp add: Pair case_prod_beta)
  qed
qed

lemma serve_all_votes_unique:
  "post_votes_unique (fst s) \<Longrightarrow> comment_votes_unique (fst s) \<Longrightarrow>
   post_votes_unique (fst (serve_all ppc reqs s)) \<and>
   comment_votes_unique (fst (serve_all ppc reqs s))"
proof (induction reqs arbitrary: s)
  case Nil
  then show ?case by (simp add: serve_all_def)
next
  case (Cons r reqs)
  from serve_votes_unique[OF Cons.prems, of ppc r]
  have "post_votes_unique (fst (serve ppc r s))" "comment_votes_unique (fst (serve ppc r s))"
    by simp_all
  from Cons.IH[OF this] show ?case by (simp add: serve_all_def)
qed

text \<open>
  Claim C5. From a store with at most one vote row per (user, post) and per
  (user, comment), such as one with no votes, that holds after every prefix of every
  sequence of requests (votes on posts and comments of any users on any targets, and the
  other writes of the posts router): a vote request deletes the user's row, changes its
  type in place, or creates a row only when the user has none on the target.
\<close>

theorem one_vote_row_per_user_and_target:
  "post_votes_unique d \<and> comment_votes_unique d \<longrightarrow>
     post_votes_unique (fst (serve_all process_post_content (take n reqs) (d, rc))) \<and>
     comment_votes_unique (fst (serve_all process_post_content (take n reqs) (d, rc)))"
  using serve_all_votes_unique[of "(d, rc)" process_post_content "take n reqs"] by simp

theorem one_vote_row_per_user_and_target_witness:
  "post_votes_unique store1 \<and> comment_votes_unique store1 \<and>
   post_votes_unique (fst (serve_all (\<lambda>s. (s, \<lparr>plain_text = s, has_code = False, has_images = False\<rparr>))
     (take 3 [VoteOnPost 1 DOWNVOTE bob, VoteOnPost 1 UPVOTE carol, VoteOnComment 1 UPVOTE bob,
              VoteOnComment 2 DOWNVOTE bob])
     (store1, Redis [] []))) \<and>
   comment_votes_unique (fst (serve_all (\<lambda>s. (s, \<lparr>plain_text = s, has_code = False, has_images = False\<rparr>))
     (take 3 [VoteOnPost 1 DOWNVOTE bob, VoteOnPost 1 UPVOTE carol, VoteOnComment 1 UPVOTE bob,
              VoteOnComment 2 DOWNVOTE bob])
     (store1, Redis [] [])))"
proof -
  have h: "post_votes_unique store1" "comment_votes_unique store1"
    by (simp_all add: post_votes_unique_def comment_votes_unique_def store1_def sample_defs)
  show ?thesis
    using one_vote_row_per_user_and_target[of store1
        "\<lambda>s. (s, \<lparr>plain_text = s, has_code = False, has_images = False\<rparr>)" 3
        "[VoteOnPost 1 DOWNVOTE bob, VoteOnPost 1 UPVOTE carol, VoteOnComment 1 UPVOTE bob,
          VoteOnComment 2 DOWNVOTE bob]" "Redis [] []"] h
    by blast
qed

section \<open>Moving the accepted answer\<close>

lemma karma_of_karma_add:
  "karma_of i (karma_add a n d) =
     (case a of None \<Rightarrow> karma_of i d
      | Some x \<Rightarrow> map_option (\<lambda>k. if i = u_id x then k + n else k) (karma_of i d))"
proof (cases a)
  case None
  then show ?thesis by (simp add: karma_add_def)
next
  case (Some x)
  show ?thesis
  proof (cases "find (\<lambda>u. u_id u = i) (users d)")
    case None
    then show ?thesis
      by (simp add: Some karma_of_def users_karma_add find_user_upd)
  next
    case (Some u)
    with find_SomeD[OF Some] show ?thesis
      by (auto simp: \<open>a = Some x\<close> karma_of_def users_karma_add find_user_upd)
  qed
qed

lemma karma_of_frame [simp]:
  "karma_of i (upd_post j f d) = karma_of i d"
  "karma_of i (upd_comment j g d) = karma_of i d"
  by (simp_all add: karma_of_def)

lemma users_karma_add_upd_comment:
  "users (karma_add a n (upd_comment i f e)) = users (karma_add a n e)"
  by (cases a) (simp_all add: karma_add_def)

lemma find_map_map_pres:
  assumes "\<And>x. P (g x) = P x" "\<And>x. P (f x) = P x" "find P xs = Some x"
  shows "find P (map g (map f xs)) = Some (g (f x))"
  using find_map_pres[of P g "map f xs"] find_map_pres[of P f xs] assms
  by (simp del: map_map)

lemma accept_answer_transfer:
  assumes P: "find (\<lambda>p. p_id p = pid \<and> \<not> p_is_deleted p) (posts d) = Some post"
    and A: "p_author_id post = u_id cu" and Q: "p_post_type post = QUESTION"
    and O: "p_accepted_answer_id post = Some c1" and Z: "c1 \<noteq> 0" and N: "c1 \<noteq> c2"
    and X: "find (\<lambda>c. c_id c = c1) (comments d) = Some x"
    and Y: "find (\<lambda>c. c_id c = c2 \<and> c_post_id c = pid \<and> \<not> c_is_deleted c) (comments d) = Some y"
  shows "accept_answer pid c2 cu d rc =
    (karma_add (find (\<lambda>u. u_id u = c_author_id y)
                 (users (karma_add (find (\<lambda>u. u_id u = c_author_id x) (users d)) (- 15) d))) 15
       (upd_post pid (\<lambda>p. p\<lparr>p_accepted_answer_id := Some c2\<rparr>)
          (upd_comment c2 (\<lambda>c. c\<lparr>c_is_accepted := True\<rparr>)
             (karma_add (find (\<lambda>u. u_id u = c_author_id x) (users d)) (- 15)
                (upd_comment c1 (\<lambda>c. c\<lparr>c_is_accepted := False\<rparr>) d)))),
     try_sweep (accept_sweep pid (find (\<lambda>u. u_id u = c_author_id y)
                 (users (karma_add (find (\<lambda>u. u_id u = c_author_id x) (users d)) (- 15) d)))) rc,
     Inr (AcceptDict ''Answer accepted'' True))"
proof -
  have ids: "p_id post = pid" "c_id x = c1" "c_id y = c2"
    using find_SomeD[OF P] find_SomeD[OF X] find_SomeD[OF Y] by simp_all
  have u: "unaccept_previous post d =
      karma_add (find (\<lambda>u. u_id u = c_author_id x) (users d)) (- 15)
        (upd_comment c1 (\<lambda>c. c\<lparr>c_is_accepted := False\<rparr>) d)"
    by (simp add: unaccept_previous_def O Z X ids Let_def)
  show ?thesis
    using N by (simp add: accept_answer_def P A Q O Y u ids Let_def users_karma_add_upd_comment)
qed

text \<open>
  Claim C3. A question's \<open>accepted_answer_id\<close> names comment \<open>c1\<close>, and the post's author
  asks to accept another comment \<open>c2\<close> of the post that is not soft-deleted. The one
  call (one commit) answers "Answer accepted" and leaves \<open>c1\<close> with \<open>is_accepted\<close>
  false, \<open>c2\<close> with \<open>is_accepted\<close> true and the post with \<open>accepted_answer_id = c2\<close>;
  the karma of every user is what it was, less 15 for the author of \<open>c1\<close> and plus 15
  for the author of \<open>c2\<close> (the two cancel when one user wrote both).
\<close>

theorem accept_transfer:
  "find (\<lambda>p. p_id p = post_id \<and> \<not> p_is_deleted p) (posts d) = Some post \<and>
   p_author_id post = u_id current_user \<and> p_post_type post = QUESTION \<and>
   p_accepted_answer_id post = Some c1 \<and> c1 \<noteq> 0 \<and> c1 \<noteq> c2 \<and>
   find (\<lambda>c. c_id c = c1) (comments d) = Some x \<and>
   find (\<lambda>c. c_id c = c2 \<and> c_post_id c = post_id \<and> \<not> c_is_deleted c) (comments d) = Some y \<and>
   find (\<lambda>u. u_id u = c_author_id x) (users d) = Some author_x \<and>
   find (\<lambda>u. u_id u = c_author_id y) (users d) = Some author_y \<longrightarrow>
     (\<exists>d' rc'. accept_answer post_id c2 current_user d rc =
          (d', rc', Inr (AcceptDict ''Answer accepted'' True)) \<and>
        map_option c_is_accepted (find (\<lambda>c. c_id c = c1) (comments d')) = Some False \<and>
        map_option c_is_accepted
          (find (\<lambda>c. c_id c = c2 \<and> c_post_id c = post_id \<and> \<not> c_is_deleted c) (comments d')) =
          Some True \<and>
        map_option p_accepted_answer_id
          (find (\<lambda>p. p_id p = post_id \<and> \<not> p_is_deleted p) (posts d')) = Some (Some c2) \<and>
        (\<forall>i. karma_of i d' =
           map_option (\<lambda>k. k - (if i = c_author_id x then 15 else 0)
                             + (if i = c_author_id y then 15 else 0)) (karma_of i d)))"
proof (intro impI; elim conjE)
  assume P: "find (\<lambda>p. p_id p = post_id \<and> \<not> p_is_deleted p) (posts d) = Some post"
    and A: "p_author_id post = u_id current_user" and Q: "p_post_type post = QUESTION"
    and O: "p_accepted_answer_id post = Some c1" and Z: "c1 \<noteq> 0" and N: "c1 \<noteq> c2"
    and X: "find (\<lambda>c. c_id c = c1) (comments d) = Some x"
    and Y: "find (\<lambda>c. c_id c = c2 \<and> c_post_id c = post_id \<and> \<not> c_is_deleted c) (comments d) = Some y"
    and UX: "find (\<lambda>u. u_id u = c_author_id x) (users d) = Some author_x"
    and UY: "find (\<lambda>u. u_id u = c_author_id y) (users d) = Some author_y"
  have ids: "p_id post = post_id" "c_id x = c1" "c_id y = c2" "u_id author_x = c_author_id x"
    "u_id author_y = c_author_id y"
    using find_SomeD[OF P] find_SomeD[OF X] find_SomeD[OF Y] find_SomeD[OF UX] find_SomeD[OF UY]
    by simp_all
  define g1 :: "Comment \<Rightarrow> Comment" where
    "g1 = (\<lambda>c. if c_id c = c1 then c\<lparr>c_is_accepted := False\<rparr> else c)"
  define g2 :: "Comment \<Rightarrow> Comment" where
    "g2 = (\<lambda>c. if c_id c = c2 then c\<lparr>c_is_accepted := True\<rparr> else c)"
  define h :: "Post \<Rightarrow> Post" where
    "h = (\<lambda>p. if p_id p = post_id then p\<lparr>p_accepted_answer_id := Some c2\<rparr> else p)"
  have f1: "find (\<lambda>c. c_id c = c1) (map g2 (map g1 (comments d))) = Some (g2 (g1 x))"
    by (rule find_map_map_pres[OF _ _ X]) (simp_all add: g1_def g2_def)
  have f2: "find (\<lambda>c. c_id c = c2 \<and> c_post_id c = post_id \<and> \<not> c_is_deleted c)
        (map g2 (map g1 (comments d))) = Some (g2 (g1 y))"
    by (rule find_map_map_pres[OF _ _ Y]) (simp_all add: g1_def g2_def)
  have f3: "find (\<lambda>p. p_id p = post_id \<and> \<not> p_is_deleted p) (map h (posts d)) = Some (h post)"
    using find_map_pres[of "\<lambda>p. p_id p = post_id \<and> \<not> p_is_deleted p" h "posts d"] P
    by (simp add: h_def)
  have v: "c_is_accepted (g2 (g1 x)) = False" "c_is_accepted (g2 (g1 y)) = True"
    "p_accepted_answer_id (h post) = Some c2"
    using N by (simp_all add: g1_def g2_def h_def ids)
  have UY': "find (\<lambda>u. u_id u = c_author_id y) (users (karma_add (Some author_x) (- 15) d))
      = Some (if u_id author_y = u_id author_x
              then author_y\<lparr>u_karma_score := u_karma_score author_y + - 15\<rparr> else author_y)"
    by (simp add: users_karma_add find_user_upd UY)
  define D where "D = karma_add (find (\<lambda>u. u_id u = c_author_id y)
                 (users (karma_add (find (\<lambda>u. u_id u = c_author_id x) (users d)) (- 15) d))) 15
       (upd_post post_id (\<lambda>p. p\<lparr>p_accepted_answer_id := Some c2\<rparr>)
          (upd_comment c2 (\<lambda>c. c\<lparr>c_is_accepted := True\<rparr>)
             (karma_add (find (\<lambda>u. u_id u = c_author_id x) (users d)) (- 15)
                (upd_comment c1 (\<lambda>c. c\<lparr>c_is_accepted := False\<rparr>) d))))"
  have T: "accept_answer post_id c2 current_user d rc =
      (D, try_sweep (accept_sweep post_id (find (\<lambda>u. u_id u = c_author_id y)
                 (users (karma_add (find (\<lambda>u. u_id u = c_author_id x) (users d)) (- 15) d)))) rc,
       Inr (AcceptDict ''Answer accepted'' True))"
    unfolding D_def by (rule accept_answer_transfer[OF P A Q O Z N X Y])
  have C: "comments D = map g2 (map g1 (comments d))"
    unfolding D_def g1_def g2_def by (simp del: map_map)
  have Ps: "posts D = map h (posts d)"
    unfolding D_def h_def by simp
  have K: "karma_of i D = map_option (\<lambda>k. k - (if i = c_author_id x then 15 else 0)
                             + (if i = c_author_id y then 15 else 0)) (karma_of i d)" for i
    unfolding D_def UX UY' karma_of_karma_add
    by (cases "karma_of i d") (simp_all add: karma_of_karma_add ids)
  show "\<exists>d' rc'. accept_answer post_id c2 current_user d rc =
          (d', rc', Inr (AcceptDict ''Answer accepted'' True)) \<and>
        map_option c_is_accepted (find (\<lambda>c. c_id c = c1) (comments d')) = Some False \<and>
        map_option c_is_accepted
          (find (\<lambda>c. c_id c = c2 \<and> c_post_id c = post_id \<and> \<not> c_is_deleted c) (comments d')) =
          Some True \<and>
        map_option p_accepted_answer_id
          (find (\<lambda>p. p_id p = post_id \<and> \<not> p_is_deleted p) (posts d')) = Some (Some c2) \<and>
        (\<forall>i. karma_of i d' =
           map_option (\<lambda>k. k - (if i = c_author_id x then 15 else 0)
                             + (if i = c_author_id y then 15 else 0)) (karma_of i d))"
    unfolding T
    by (intro exI conjI allI, rule refl) (simp_all only: C Ps f1 f2 f3 v K option.map)
qed

theorem accept_transfer_witness:
  "find (\<lambda>p. p_id p = 1 \<and> \<not> p_is_deleted p) (posts store2) =
     Some ((mk_post 1 QUESTION 1 False False)\<lparr>p_accepted_answer_id := Some 1\<rparr>) \<and>
   find (\<lambda>c. c_id c = 1) (comments store2) = Some ((mk_comment 1 1 3)\<lparr>c_is_accepted := True\<rparr>) \<and>
   find (\<lambda>c. c_id c = 2 \<and> c_post_id c = 1 \<and> \<not> c_is_deleted c) (comments store2) =
     Some (mk_comment 2 1 4) \<and>
   find (\<lambda>u. u_id u = 3) (users store2) = Some (carol\<lparr>u_karma_score := 15\<rparr>) \<and>
   find (\<lambda>u. u_id u = 4) (users store2) = Some dave \<and>
   u_id alice = 1 \<and> karma_of 3 store2 = Some 15 \<and> karma_of 4 store2 = Some 0 \<and>
   (\<exists>d' rc'. accept_answer 1 2 alice store2 (Redis [] []) =
        (d', rc', Inr (AcceptDict ''Answer accepted'' True)) \<and>
      map_option c_is_accepted (find (\<lambda>c. c_id c = 1) (comments d')) = Some False \<and>
      map_option c_is_accepted
        (find (\<lambda>c. c_id c = 2 \<and> c_post_id c = 1 \<and> \<not> c_is_deleted c) (comments d')) = Some True \<and>
      map_option p_accepted_answer_id
        (find (\<lambda>p. p_id p = 1 \<and> \<not> p_is_deleted p) (posts d')) = Some (Some 2) \<and>
      karma_of 3 d' = Some 0 \<and> karma_of 4 d' = Some 15)"
proof -
  have h: "find (\<lambda>p. p_id p = 1 \<and> \<not> p_is_deleted p) (posts store2) =
     Some ((mk_post 1 QUESTION 1 False False)\<lparr>p_accepted_answer_id := Some 1\<rparr>)"
    "find (\<lambda>c. c_id c = 1) (comments store2) = Some ((mk_comment 1 1 3)\<lparr>c_is_accepted := True\<rparr>)"
    "find (\<lambda>c. c_id c = 2 \<and> c_post_id c = 1 \<and> \<not> c_is_deleted c) (comments store2) =
     Some (mk_comment 2 1 4)"
    "find (\<lambda>u. u_id u = 3) (users store2) = Some (carol\<lparr>u_karma_score := 15\<rparr>)"
    "find (\<lambda>u. u_id u = 4) (users store2) = Some dave"
    "u_id alice = 1" "karma_of 3 store2 = Some 15" "karma_of 4 store2 = Some 0"
    by (simp_all add: store2_def karma_of_def sample_defs)
  have a: "c_author_id ((mk_comment 1 1 3)\<lparr>c_is_accepted := True\<rparr>) = 3"
    "c_author_id (mk_comment 2 1 4) = 4"
    "p_author_id ((mk_post 1 QUESTION 1 False False)\<lparr>p_accepted_answer_id := Some 1\<rparr>) = u_id alice"
    "p_post_type ((mk_post 1 QUESTION 1 False False)\<lparr>p_accepted_answer_id := Some 1\<rparr>) = QUESTION"
    "p_accepted_answer_id ((mk_post 1 QUESTION 1 False False)\<lparr>p_accepted_answer_id := Some 1\<rparr>) = Some 1"
    by (simp_all add: sample_defs)
  from accept_transfer[of 1 store2
      "(mk_post 1 QUESTION 1 False False)\<lparr>p_accepted_answer_id := Some 1\<rparr>" alice 1 2
      "(mk_comment 1 1 3)\<lparr>c_is_accepted := True\<rparr>" "mk_comment 2 1 4"
      "carol\<lparr>u_karma_score := 15\<rparr>" dave "Redis [] []"] h a
  obtain d' rc' where r: "accept_answer 1 2 alice store2 (Redis [] []) =
        (d', rc', Inr (AcceptDict ''Answer accepted'' True))"
      "map_option c_is_accepted (find (\<lambda>c. c_id c = 1) (comments d')) = Some False"
      "map_option c_is_accepted
        (find (\<lambda>c. c_id c = 2 \<and> c_post_id c = 1 \<and> \<not> c_is_deleted c) (comments d')) = Some True"
      "map_option p_accepted_answer_id
        (find (\<lambda>p. p_id p = 1 \<and> \<not> p_is_deleted p) (posts d')) = Some (Some 2)"
      and k: "\<And>i. karma_of i d' =
           map_option (\<lambda>k. k - (if i = 3 then 15 else 0) + (if i = 4 then 15 else 0))
             (karma_of i store2)"
    by auto
  have "karma_of 3 d' = Some 0" "karma_of 4 d' = Some 15"
    by (simp_all add: k h)
  with r h show ?thesis by simp
qed

section \<open>The sweep after a vote on a post\<close>

lemma str_int_1: "str_int 1 = ''1''"
  by (simp add: str_int_def str_nat.simps digit_char_def char_of_def bit_iff_odd)

text \<open>
  The sweep is best effort, so a read after a vote can return an entry from before it.
  Here the cache holds an entry for post 1 and its first call fails: Bob's upvote is
  counted, the sweep is abandoned at its first statement, and the entry is still read.
  This is against claim C6.
\<close>

theorem stale_entry_survives_failed_sweep:
  "(\<exists>d' r. vote_on_post 1 UPVOTE bob store0 (Redis [(''post:'' @ str_int 1, ''stale'')] [True]) =
       (d', Redis [(''post:'' @ str_int 1, ''stale'')] [], Inr r) \<and>
     post_ledger 1 (u_id bob) d' = Some (Upvoted, 1, 0, 10)) \<and>
   redis_get (''post:'' @ str_int 1) (Redis [(''post:'' @ str_int 1, ''stale'')] []) =
     (Some (Some ''stale''), Redis [(''post:'' @ str_int 1, ''stale'')] []) \<and>
   ''post:'' @ str_int 1 = ''post:1''"
proof -
  have P: "find (\<lambda>p. p_id p = 1 \<and> \<not> p_is_deleted p) (posts store0) =
      Some (mk_post 1 QUESTION 1 False False)"
    and N: "find (\<lambda>v. pv_post_id v = 1 \<and> pv_user_id v = u_id bob) (post_votes store0) = None"
    by (simp_all add: sample_defs)
  have L: "post_ledger 1 (u_id bob) store0 = Some (NoVote, 0, 0, 0)" "post_votes_unique store0"
    by (simp_all add: post_ledger_def post_votes_unique_def sample_defs)
  from vote_on_post_step[OF L, of UPVOTE "Redis [(''post:'' @ str_int 1, ''stale'')] [True]"]
  obtain d' rc' r where
    v: "vote_on_post 1 UPVOTE bob store0 (Redis [(''post:'' @ str_int 1, ''stale'')] [True]) =
          (d', rc', Inr r)"
    and l: "post_ledger 1 (u_id bob) d' = Some (transition post_weights UPVOTE (NoVote, 0, 0, 0))"
    by blast
  have "rc' = try_sweep (post_vote_sweep 1
      (find (\<lambda>u. u_id u = p_author_id (mk_post 1 QUESTION 1 False False)) (users store0)))
      (Redis [(''post:'' @ str_int 1, ''stale'')] [True])"
    using v unfolding vote_on_post_create[OF P N] by simp
  then have rc': "rc' = Redis [(''post:'' @ str_int 1, ''stale'')] []"
    by (simp add: try_sweep_def post_vote_sweep_def)
  show ?thesis
    using v l by (simp add: rc' post_weights_def str_int_1)
qed

lemma delete_keys_healthy:
  "delete_keys ks (Redis es []) = (Some (), Redis (filter (\<lambda>e. fst e \<notin> set ks) es) [])"
proof (induction ks arbitrary: es)
  case Nil
  then show ?case by simp
next
  case (Cons k ks)
  have "filter (\<lambda>e. fst e \<notin> set ks) (filter (\<lambda>e. fst e \<noteq> k) es)
      = filter (\<lambda>e. fst e \<notin> set (k # ks)) es"
    by (induction es) auto
  with Cons show ?case by simp
qed

lemma exec_stmt_healthy:
  "exec_stmt (Delete k) (Redis es []) = (Some (), Redis (filter (\<lambda>e. fst e \<noteq> k) es) [])"
  "exec_stmt (ScanDelete pre) (Redis es []) =
     (Some (), Redis (filter (\<lambda>e. \<not> key_matches pre (fst e)) es) [])"
proof -
  show "exec_stmt (Delete k) (Redis es []) = (Some (), Redis (filter (\<lambda>e. fst e \<noteq> k) es) [])"
    by simp
  have "filter (\<lambda>e. fst e \<notin> set (filter (key_matches pre) (map fst es))) es
      = filter (\<lambda>e. \<not> key_matches pre (fst e)) es"
    by (rule filter_cong) auto
  then show "exec_stmt (ScanDelete pre) (Redis es []) =
     (Some (), Redis (filter (\<lambda>e. \<not> key_matches pre (fst e)) es) [])"
    by (simp add: delete_keys_healthy)
qed

lemma map_of_filter_None:
  "\<not> Q k \<Longrightarrow> map_of (filter (\<lambda>e. Q (fst e)) es) k = None"
  by (induction es) auto

lemma post_vote_sweep_healthy:
  "try_sweep (post_vote_sweep pid a) (Redis es []) =
     Redis (filter (\<lambda>e. \<not> (fst e = ''post:'' @ str_int pid \<or> key_matches ''posts:list:'' (fst e) \<or>
                          (case a of None \<Rightarrow> False
                           | Some u \<Rightarrow> fst e = ''user:profile:'' @ u_display_name u \<or>
                                      key_matches ''users:top:'' (fst e)))) es) []"
proof (cases a)
  case None
  have "filter (\<lambda>e. \<not> key_matches ''posts:list:'' (fst e))
          (filter (\<lambda>e. fst e \<noteq> ''post:'' @ str_int pid) es)
      = filter (\<lambda>e. \<not> (fst e = ''post:'' @ str_int pid \<or> key_matches ''posts:list:'' (fst e))) es"
    by (induction es) auto
  then show ?thesis
    by (simp add: None try_sweep_def post_vote_sweep_def exec_stmt_healthy del: exec_stmt.simps)
next
  case (Some u)
  have "filter (\<lambda>e. \<not> key_matches ''users:top:'' (fst e))
          (filter (\<lambda>e. fst e \<noteq> ''user:profile:'' @ u_display_name u)
            (filter (\<lambda>e. \<not> key_matches ''posts:list:'' (fst e))
              (filter (\<lambda>e. fst e \<noteq> ''post:'' @ str_int pid) es)))
      = filter (\<lambda>e. \<not> (fst e = ''post:'' @ str_int pid \<or> key_matches ''posts:list:'' (fst e) \<or>
                        fst e = ''user:profile:'' @ u_display_name u \<or>
                        key_matches ''users:top:'' (fst e))) es"
    by (induction es) auto
  then show ?thesis
    by (simp add: Some try_sweep_def post_vote_sweep_def exec_stmt_healthy del: exec_stmt.simps)
qed

lemma vote_on_post_cache:
  "find (\<lambda>p. p_id p = pid \<and> \<not> p_is_deleted p) (posts d) = Some post \<Longrightarrow>
   \<exists>d' r. vote_on_post pid t cu d rc =
     (d', try_sweep (post_vote_sweep pid (find (\<lambda>u. u_id u = p_author_id post) (users d))) rc,
      Inr r)"
  by (simp add: vote_on_post_def Let_def split: option.splits)

text \<open>
  Claim C6, for a cache that answers. When the Redis server is healthy, a vote on a post
  (whichever transition it is) leaves no entry under \<open>post:<post_id>\<close> and none under a
  key with prefix \<open>posts:list:\<close>, and, when the post's author has a user row, none under
  \<open>user:profile:<display name of the author>\<close> and none under a key with prefix
  \<open>users:top:\<close>: a read of any of these keys after the vote is a miss.
\<close>

theorem vote_sweep_complete_when_cache_healthy:
  "(find (\<lambda>p. p_id p = post_id \<and> \<not> p_is_deleted p) (posts d) = Some post \<and>
    (k = ''post:'' @ str_int post_id \<or> key_matches ''posts:list:'' k) \<longrightarrow>
      (\<exists>d' es' r. vote_on_post post_id t current_user d (Redis es []) = (d', Redis es' [], Inr r) \<and>
         redis_get k (Redis es' []) = (Some None, Redis es' []))) \<and>
   (find (\<lambda>p. p_id p = post_id \<and> \<not> p_is_deleted p) (posts d) = Some post \<and>
    find (\<lambda>u. u_id u = p_author_id post) (users d) = Some author \<and>
    (k' = ''user:profile:'' @ u_display_name author \<or> key_matches ''users:top:'' k') \<longrightarrow>
      (\<exists>d' es' r. vote_on_post post_id t current_user d (Redis es []) = (d', Redis es' [], Inr r) \<and>
         redis_get k' (Redis es' []) = (Some None, Redis es' [])))"
proof (intro conjI impI; elim conjE)
  assume P: "find (\<lambda>p. p_id p = post_id \<and> \<not> p_is_deleted p) (posts d) = Some post"
    and K: "k = ''post:'' @ str_int post_id \<or> key_matches ''posts:list:'' k"
  from vote_on_post_cache[OF P, of t current_user "Redis es []"]
  obtain d' r where v: "vote_on_post post_id t current_user d (Redis es []) =
     (d', try_sweep (post_vote_sweep post_id (find (\<lambda>u. u_id u = p_author_id post) (users d)))
            (Redis es []), Inr r)" by blast
  show "\<exists>d' es' r. vote_on_post post_id t current_user d (Redis es []) = (d', Redis es' [], Inr r) \<and>
         redis_get k (Redis es' []) = (Some None, Redis es' [])"
    unfolding v post_vote_sweep_healthy
    using K by (auto intro!: map_of_filter_None)
next
  assume P: "find (\<lambda>p. p_id p = post_id \<and> \<not> p_is_deleted p) (posts d) = Some post"
    and A: "find (\<lambda>u. u_id u = p_author_id post) (users d) = Some author"
    and K: "k' = ''user:profile:'' @ u_display_name author \<or> key_matches ''users:top:'' k'"
  from vote_on_post_cache[OF P, of t current_user "Redis es []"]
  obtain d' r where v: "vote_on_post post_id t current_user d (Redis es []) =
     (d', try_sweep (post_vote_sweep post_id (find (\<lambda>u. u_id u = p_author_id post) (users d)))
            (Redis es []), Inr r)" by blast
  show "\<exists>d' es' r. vote_on_post post_id t current_user d (Redis es []) = (d', Redis es' [], Inr r) \<and>
         redis_get k' (Redis es' []) = (Some None, Redis es' [])"
    unfolding v post_vote_sweep_healthy A
    using K by (auto intro!: map_of_filter_None)
qed

theorem vote_sweep_complete_when_cache_healthy_witness:
  "find (\<lambda>p. p_id p = 1 \<and> \<not> p_is_deleted p) (posts store1) =
     Some ((mk_post 1 QUESTION 1 False False)\<lparr>p_upvote_count := 1\<rparr>) \<and>
   find (\<lambda>u. u_id u = 1) (users store1) = Some (alice\<lparr>u_karma_score := 10\<rparr>) \<and>
   ''post:1'' = ''post:'' @ str_int 1 \<and>
   ''user:profile:alice'' = ''user:profile:'' @ u_display_name (alice\<lparr>u_karma_score := 10\<rparr>) \<and>
   (\<exists>d' es' r. vote_on_post 1 DOWNVOTE bob store1
        (Redis [(''post:1'', ''stale''), (''user:profile:alice'', ''stale'')] []) =
        (d', Redis es' [], Inr r) \<and>
      redis_get ''post:1'' (Redis es' []) = (Some None, Redis es' [])) \<and>
   (\<exists>d' es' r. vote_on_post 1 DOWNVOTE bob store1
        (Redis [(''post:1'', ''stale''), (''user:profile:alice'', ''stale'')] []) =
        (d', Redis es' [], Inr r) \<and>
      redis_get ''user:profile:alice'' (Redis es' []) = (Some None, Redis es' []))"
proof -
  have h: "find (\<lambda>p. p_id p = 1 \<and> \<not> p_is_deleted p) (posts store1) =
     Some ((mk_post 1 QUESTION 1 False False)\<lparr>p_upvote_count := 1\<rparr>)"
    "find (\<lambda>u. u_id u = 1) (users store1) = Some (alice\<lparr>u_karma_score := 10\<rparr>)"
    "''post:1'' = ''post:'' @ str_int 1"
    "''user:profile:alice'' = ''user:profile:'' @ u_display_name (alice\<lparr>u_karma_score := 10\<rparr>)"
    "p_author_id ((mk_post 1 QUESTION 1 False False)\<lparr>p_upvote_count := 1\<rparr>) = 1"
    by (simp_all add: store1_def sample_defs str_int_1)
  show ?thesis
    using vote_sweep_complete_when_cache_healthy[of 1 store1
        "(mk_post 1 QUESTION 1 False False)\<lparr>p_upvote_count := 1\<rparr>" "''post:1''" DOWNVOTE bob
        "[(''post:1'', ''stale''), (''user:profile:alice'', ''stale'')]"
        "alice\<lparr>u_karma_score := 10\<rparr>" "''user:profile:alice''"] h
    by simp
qed

end
